theory Spec2Isabelle
  imports Complex_Main
begin

section \<open>Data model of \<open>game.py\<close>\<close>

text \<open>
  The development embeds the rules part of the class \<open>Game\<close> of \<open>game.py\<close>: the per-frame
  \<open>update\<close>, the T-spin classification, \<open>is_cell_filled\<close>, the corner tables, the drop speed
  and \<open>hold_piece\<close>.  The classes \<open>Grid\<close>, \<open>Tetromino\<close>, \<open>PieceGenerator\<close>, \<open>Score\<close>,
  \<open>HighScore\<close>, \<open>TetrisAI\<close> and the presentation objects live in other modules; their
  methods and the constants of \<open>constants.py\<close> are parameters of the model (the record
  \<open>env\<close> below).
\<close>

subsection \<open>Exceptions\<close>

datatype error = IndexError | AttributeError | TypeError

type_synonym 'a result = "error + 'a"

subsection \<open>Grid cells and Python list indexing\<close>

text \<open>
  A cell of \<open>grid.cells\<close> is the integer \<open>0\<close> when empty and otherwise the colour of the
  block locked there (\<open>create_line_clear_particles\<close> reads the colour back from the cell;
  colours are \<open>(r, g, b)\<close> triples, see \<open>draw_ghost_piece\<close>).
\<close>

datatype cell = Num int | Colour int int int

text \<open>Python's \<open>bool(c)\<close>: an integer is true when non-zero, a 3-tuple always.\<close>

fun truthy :: "cell \<Rightarrow> bool" where
  "truthy (Num n) = (n \<noteq> 0)"
| "truthy (Colour r g b) = True"

text \<open>Python's \<open>xs[i]\<close>: a negative index counts from the end, anything else out of
  range raises \<open>IndexError\<close>.\<close>

definition py_index :: "'a list \<Rightarrow> int \<Rightarrow> 'a result" where
  "py_index xs i =
     (if 0 \<le> i \<and> i < int (length xs) then Inr (xs ! nat i)
      else if i < 0 \<and> - int (length xs) \<le> i then Inr (xs ! nat (int (length xs) + i))
      else Inl IndexError)"

text \<open>\<open>cells[y][x]\<close>: the row first, then the column.\<close>

definition cell_at :: "cell list list \<Rightarrow> int \<Rightarrow> int \<Rightarrow> cell result" where
  "cell_at cs row col =
     (case py_index cs row of Inl e \<Rightarrow> Inl e | Inr r \<Rightarrow> py_index r col)"

record grid =
  width :: int
  height :: int
  cells :: "cell list list"
  x_offset :: int
  y_offset :: int
  cell_size :: int

subsection \<open>Pieces\<close>

text \<open>The attributes of a \<open>Tetromino\<close> that \<open>game.py\<close> reads or writes.  The fields
  \<open>piece_x\<close> and \<open>piece_y\<close> are the attributes \<open>x\<close> and \<open>y\<close>.\<close>

record tetromino =
  shape_name :: string
  piece_x :: int
  piece_y :: int
  rotation_state :: int
  lock_delay_active :: bool
  lock_delay_timer :: int
  lock_moves_count :: int
  is_locked :: bool

text \<open>What \<open>check_t_spin\<close> returns: \<open>False\<close>, \<open>"mini"\<close> or \<open>"normal"\<close>.\<close>

datatype t_spin = SpinFalse | SpinMini | SpinNormal

text \<open>The dictionary returned by \<open>TetrisAI.get_best_move\<close>, with the keys \<open>update\<close>
  reads.\<close>

record best_move =
  bm_rotation :: int
  bm_x :: int
  bm_y :: int

subsection \<open>The game object\<close>

text \<open>
  Pieces are Python objects: two attributes of the game may hold the same piece, and a
  method call on a piece changes it for every holder.  The game therefore keeps a store
  \<open>heap\<close> from references to piece values; \<open>next_ref\<close> is the first reference never
  handed out.  \<open>current_piece\<close> and \<open>held_piece\<close> hold references (\<open>None\<close> as in the
  source).

  The generator, the score and the presentation objects (menu, HUD, particle system,
  transition, input box) are opaque: \<open>'gen\<close>, \<open>'sc\<close> and \<open>'ui\<close>.  The timers that count
  in sixtieths of a second are Python floats; they are modelled as rationals.  The
  model covers a game object after \<open>start_new_game\<close>, when \<open>grid\<close>, \<open>piece_generator\<close>,
  \<open>score\<close> and \<open>hud\<close> are objects rather than \<open>None\<close>.
\<close>

type_synonym ref = nat

record ('gen, 'sc, 'ui) game =
  current_screen :: string
  mode :: string
  grid :: grid
  piece_generator :: 'gen
  current_piece :: "ref option"
  next_pieces :: "string list"
  score :: 'sc
  ui :: 'ui
  is_paused :: bool
  game_over :: bool
  drop_timer :: int
  drop_speed :: int
  last_update_time :: int
  soft_drop_count :: int
  drop_height :: int
  last_rotation :: bool
  last_move_was_rotation :: bool
  hard_drop_count :: int
  level_up_effect :: "rat option"
  start_timer :: "rat option"
  countdown_timer :: "rat option"
  held_piece :: "ref option"
  can_hold :: bool
  ai_debug_timer :: int
  ai_debug_interval :: int
  heap :: "ref \<Rightarrow> tetromino"
  next_ref :: ref

subsection \<open>The collaborators\<close>

text \<open>
  The constants of \<open>constants.py\<close> and the methods of the classes outside \<open>game.py\<close>,
  one field each.  A method that changes its object returns the new object; a method of
  a piece also takes the grid the piece was created with (always the game's grid).
  \<open>TetrisAI.print_debug_info\<close> only prints and has no field.
\<close>

record ('gen, 'sc, 'ui) env =
  LOCK_DELAY :: int
  MAX_LOCK_MOVES :: int
  INITIAL_DROP_SPEED :: int
  MIN_DROP_SPEED :: int
  SPEED_INCREMENT :: int
  tet_new :: "string \<Rightarrow> grid \<Rightarrow> tetromino"
  tet_move :: "grid \<Rightarrow> tetromino \<Rightarrow> int \<Rightarrow> int \<Rightarrow> bool \<times> tetromino"
  tet_rotate :: "grid \<Rightarrow> tetromino \<Rightarrow> bool \<times> tetromino"
  tet_is_touching_ground :: "grid \<Rightarrow> tetromino \<Rightarrow> bool"
  tet_update_position :: "grid \<Rightarrow> tetromino \<Rightarrow> tetromino"
  tet_reset_position :: "grid \<Rightarrow> tetromino \<Rightarrow> tetromino"
  grid_lock_piece :: "grid \<Rightarrow> tetromino \<Rightarrow> grid"
  grid_clear_lines :: "grid \<Rightarrow> grid"
  grid_is_board_clear :: "grid \<Rightarrow> bool"
  grid_is_collision :: "grid \<Rightarrow> tetromino \<Rightarrow> bool"
  gen_get_next_piece :: "'gen \<Rightarrow> grid \<Rightarrow> tetromino \<times> 'gen"
  gen_preview_next_pieces :: "'gen \<Rightarrow> string list \<times> 'gen"
  sc_update :: "'sc \<Rightarrow> nat \<Rightarrow> t_spin \<Rightarrow> bool \<Rightarrow> int \<Rightarrow> int \<Rightarrow> int \<Rightarrow> (int \<times> string list) \<times> 'sc"
  sc_update_level :: "'sc \<Rightarrow> 'sc"
  sc_level :: "'sc \<Rightarrow> int"
  sc_points :: "'sc \<Rightarrow> int"
  sc_add_tetris_clear_bonus :: "'sc \<Rightarrow> int \<times> 'sc"
  high_score_is_high_score :: "int \<Rightarrow> bool"
  ai_get_best_move :: "('gen, 'sc, 'ui) game \<Rightarrow> best_move option"
  menu_update :: "'ui \<Rightarrow> 'ui"
  particles_update :: "'ui \<Rightarrow> 'ui"
  particles_add_particle :: "'ui \<Rightarrow> int \<Rightarrow> int \<Rightarrow> cell \<Rightarrow> 'ui"
  transition_update :: "'ui \<Rightarrow> 'ui"
  transition_is_active :: "'ui \<Rightarrow> bool"
  hud_update :: "'ui \<Rightarrow> 'ui"
  hud_add_notifications :: "'ui \<Rightarrow> string list \<Rightarrow> 'ui"
  input_box_new :: "'ui \<Rightarrow> 'ui"

subsection \<open>The store of pieces\<close>

text \<open>Writing a piece back after a method call on it, and creating a new object.\<close>

definition set_piece :: "ref \<Rightarrow> tetromino \<Rightarrow> ('gen, 'sc, 'ui) game \<Rightarrow> ('gen, 'sc, 'ui) game" where
  "set_piece a p g = g\<lparr>heap := (heap g)(a := p)\<rparr>"

definition alloc :: "tetromino \<Rightarrow> ('gen, 'sc, 'ui) game \<Rightarrow> ref \<times> ('gen, 'sc, 'ui) game" where
  "alloc p g = (next_ref g, g\<lparr>heap := (heap g)(next_ref g := p), next_ref := Suc (next_ref g)\<rparr>)"

section \<open>T-spin detection\<close>

text \<open>\<open>Game.is_cell_filled\<close> (lines 600-605).\<close>

definition is_cell_filled :: "('gen, 'sc, 'ui) game \<Rightarrow> int \<Rightarrow> int \<Rightarrow> bool result" where
  "is_cell_filled g cx cy =
     (if cx < 0 \<or> cx \<ge> width (grid g) \<or> cy < 0 \<or> cy \<ge> height (grid g) then Inr True
      else (case cell_at (cells (grid g)) cy cx of
              Inl e \<Rightarrow> Inl e
            | Inr c \<Rightarrow> Inr (truthy c)))"

text \<open>\<open>Game.get_back_corners\<close> (lines 589-598) and \<open>Game.get_front_corners\<close>
  (lines 607-616).\<close>

definition get_back_corners :: "tetromino \<Rightarrow> (int \<times> int) list" where
  "get_back_corners piece =
     (if rotation_state piece = 0 then
        [(piece_x piece, piece_y piece), (piece_x piece + 2, piece_y piece)]
      else if rotation_state piece = 1 then
        [(piece_x piece + 2, piece_y piece), (piece_x piece + 2, piece_y piece + 2)]
      else if rotation_state piece = 2 then
        [(piece_x piece, piece_y piece + 2), (piece_x piece + 2, piece_y piece + 2)]
      else
        [(piece_x piece, piece_y piece), (piece_x piece, piece_y piece + 2)])"

definition get_front_corners :: "tetromino \<Rightarrow> (int \<times> int) list" where
  "get_front_corners piece =
     (if rotation_state piece = 0 then
        [(piece_x piece, piece_y piece + 2), (piece_x piece + 2, piece_y piece + 2)]
      else if rotation_state piece = 1 then
        [(piece_x piece, piece_y piece), (piece_x piece, piece_y piece + 2)]
      else if rotation_state piece = 2 then
        [(piece_x piece, piece_y piece), (piece_x piece + 2, piece_y piece)]
      else
        [(piece_x piece + 2, piece_y piece), (piece_x piece + 2, piece_y piece + 2)])"

text \<open>\<open>sum(1 for x, y in cs if self.is_cell_filled(x, y))\<close>: the cells are queried in list
  order, and the first query that raises ends the count.\<close>

fun count_filled :: "('gen, 'sc, 'ui) game \<Rightarrow> (int \<times> int) list \<Rightarrow> nat result" where
  "count_filled g [] = Inr 0"
| "count_filled g ((cx, cy) # cs) =
     (case is_cell_filled g cx cy of
        Inl e \<Rightarrow> Inl e
      | Inr b \<Rightarrow>
          (case count_filled g cs of
             Inl e \<Rightarrow> Inl e
           | Inr n \<Rightarrow> Inr ((if b then 1 else 0) + n)))"

text \<open>The list \<open>corners\<close> built by \<open>check_t_spin\<close> (lines 557-566) for a piece.\<close>

definition t_corners :: "tetromino \<Rightarrow> (int \<times> int) list" where
  "t_corners piece =
     (let center_x = piece_x piece + 1; center_y = piece_y piece + 1 in
        [(center_x - 1, center_y - 1), (center_x + 1, center_y - 1),
         (center_x - 1, center_y + 1), (center_x + 1, center_y + 1)])"

text \<open>\<open>Game.check_t_spin\<close> (lines 551-587).  Without a current piece the first attribute
  access raises.\<close>

definition check_t_spin :: "('gen, 'sc, 'ui) game \<Rightarrow> t_spin result" where
  "check_t_spin g =
     (case current_piece g of
        None \<Rightarrow> Inl AttributeError
      | Some a \<Rightarrow>
          if shape_name (heap g a) \<noteq> ''T'' \<or> \<not> last_move_was_rotation g then Inr SpinFalse
          else
            (case count_filled g (t_corners (heap g a)) of
               Inl e \<Rightarrow> Inl e
             | Inr filled_corners \<Rightarrow>
                 (case count_filled g (get_front_corners (heap g a)) of
                    Inl e \<Rightarrow> Inl e
                  | Inr filled_front_corners \<Rightarrow>
                      (case count_filled g (get_back_corners (heap g a)) of
                         Inl e \<Rightarrow> Inl e
                       | Inr filled_back_corners \<Rightarrow>
                           if filled_corners \<ge> 3 then
                             (if filled_front_corners \<ge> 2 then Inr SpinMini else Inr SpinNormal)
                           else Inr SpinFalse))))"

section \<open>The per-frame update\<close>

subsection \<open>Spawning, the high-score check and the drop speed\<close>

text \<open>The two statements that every spawn starts with (lines 271-272, 282-283, 399-400,
  670-671): the generator hands out the next piece and the preview is refreshed.  The
  piece is a new object (in the specification the sequencer creates each piece at its
  spawn).  The result carries the reference of the new current piece.\<close>

definition draw_next_piece ::
  "('gen, 'sc, 'ui) env \<Rightarrow> ('gen, 'sc, 'ui) game \<Rightarrow> ref \<times> ('gen, 'sc, 'ui) game" where
  "draw_next_piece E g =
     (case gen_get_next_piece E (piece_generator g) (grid g) of
        (p, gen1) \<Rightarrow>
          (case alloc p (g\<lparr>piece_generator := gen1\<rparr>) of
             (a, g1) \<Rightarrow>
               (case gen_preview_next_pieces E (piece_generator g1) of
                  (pv, gen2) \<Rightarrow>
                    (a, g1\<lparr>current_piece := Some a, piece_generator := gen2,
                            next_pieces := pv\<rparr>))))"

text \<open>\<open>Game.check_high_score\<close> (lines 416-424).\<close>

definition check_high_score ::
  "('gen, 'sc, 'ui) env \<Rightarrow> ('gen, 'sc, 'ui) game \<Rightarrow> ('gen, 'sc, 'ui) game" where
  "check_high_score E g =
     (if high_score_is_high_score E (sc_points E (score g)) then
        g\<lparr>ui := input_box_new E (ui g), current_screen := ''enter_name''\<rparr>
      else g\<lparr>current_screen := ''high_scores''\<rparr>)"

text \<open>\<open>Game.update_drop_speed\<close> (lines 426-430).\<close>

definition update_drop_speed ::
  "('gen, 'sc, 'ui) env \<Rightarrow> ('gen, 'sc, 'ui) game \<Rightarrow> ('gen, 'sc, 'ui) game" where
  "update_drop_speed E g =
     g\<lparr>drop_speed :=
         max (MIN_DROP_SPEED E)
             (INITIAL_DROP_SPEED E - (sc_level E (score g) - 1) * SPEED_INCREMENT E)\<rparr>"

subsection \<open>Full rows and their particles\<close>

text \<open>\<open>all(self.grid.cells[y][x] != 0 for x in range(self.grid.width))\<close> (line 362): the
  columns are read left to right and the first empty cell ends the test.\<close>

fun row_all_nonzero :: "cell list list \<Rightarrow> int \<Rightarrow> int list \<Rightarrow> bool result" where
  "row_all_nonzero cs row [] = Inr True"
| "row_all_nonzero cs row (col # cols) =
     (case cell_at cs row col of
        Inl e \<Rightarrow> Inl e
      | Inr c \<Rightarrow> if c \<noteq> Num 0 then row_all_nonzero cs row cols else Inr False)"

text \<open>The loop of lines 361-363 over a list of row indices.\<close>

fun scan_rows :: "grid \<Rightarrow> int list \<Rightarrow> int list result" where
  "scan_rows G [] = Inr []"
| "scan_rows G (row # rows) =
     (case row_all_nonzero (cells G) row [0 .. width G - 1] of
        Inl e \<Rightarrow> Inl e
      | Inr full \<Rightarrow>
          (case scan_rows G rows of
             Inl e \<Rightarrow> Inl e
           | Inr acc \<Rightarrow> Inr (if full then row # acc else acc)))"

text \<open>\<open>lines_to_clear\<close> (lines 360-363): \<open>range(height - 1, -1, -1)\<close> runs from the bottom
  row up to row 0.\<close>

definition lines_to_clear :: "grid \<Rightarrow> int list result" where
  "lines_to_clear G = scan_rows G (rev [0 .. height G - 1])"

text \<open>\<open>Game.create_line_clear_particles\<close> (lines 618-630): five particles for each block
  of each row, at the centre of the block.\<close>

fun row_particles ::
  "('gen, 'sc, 'ui) env \<Rightarrow> grid \<Rightarrow> int \<Rightarrow> int list \<Rightarrow> 'ui \<Rightarrow> 'ui result" where
  "row_particles E G row [] u = Inr u"
| "row_particles E G row (col # cols) u =
     (case cell_at (cells G) row col of
        Inl e \<Rightarrow> Inl e
      | Inr c \<Rightarrow>
          if c \<noteq> Num 0 then
            (let particle_x = x_offset G + col * cell_size G + cell_size G div 2;
                 particle_y = y_offset G + row * cell_size G + cell_size G div 2
             in row_particles E G row cols
                  (((\<lambda>v. particles_add_particle E v particle_x particle_y c) ^^ 5) u))
          else row_particles E G row cols u)"

fun rows_particles ::
  "('gen, 'sc, 'ui) env \<Rightarrow> grid \<Rightarrow> int list \<Rightarrow> 'ui \<Rightarrow> 'ui result" where
  "rows_particles E G [] u = Inr u"
| "rows_particles E G (row # rows) u =
     (case row_particles E G row [0 .. width G - 1] u of
        Inl e \<Rightarrow> Inl e
      | Inr v \<Rightarrow> rows_particles E G rows v)"

definition create_line_clear_particles ::
  "('gen, 'sc, 'ui) env \<Rightarrow> ('gen, 'sc, 'ui) game \<Rightarrow> int list \<Rightarrow> ('gen, 'sc, 'ui) game result" where
  "create_line_clear_particles E g rows =
     (case rows_particles E (grid g) rows (ui g) of
        Inl e \<Rightarrow> Inl e
      | Inr u \<Rightarrow> Inr (g\<lparr>ui := u\<rparr>))"

subsection \<open>Gravity and the lock delay\<close>

text \<open>Lines 290-293: the clock \<open>pygame.time.get_ticks()\<close> is the argument \<open>now\<close>.\<close>

definition advance_clock :: "int \<Rightarrow> ('gen, 'sc, 'ui) game \<Rightarrow> ('gen, 'sc, 'ui) game" where
  "advance_clock now g =
     g\<lparr>drop_timer := drop_timer g + (now - last_update_time g), last_update_time := now\<rparr>"

text \<open>Lines 333-336, for the current piece \<open>a\<close>.\<close>

definition gravity_step ::
  "('gen, 'sc, 'ui) env \<Rightarrow> ref \<Rightarrow> ('gen, 'sc, 'ui) game \<Rightarrow> ('gen, 'sc, 'ui) game" where
  "gravity_step E a g =
     (if drop_timer g > drop_speed g then
        (set_piece a (snd (tet_move E (grid g) (heap g a) 0 1)) g)
          \<lparr>drop_timer := 0, drop_height := drop_height g + 1\<rparr>
      else g)"

text \<open>Lines 339-350 on the piece itself: \<open>delta_time\<close> is added to the timer, then the
  thresholds are tested, then \<open>is_touching_ground\<close> is asked.\<close>

definition lock_delay_piece ::
  "('gen, 'sc, 'ui) env \<Rightarrow> grid \<Rightarrow> int \<Rightarrow> tetromino \<Rightarrow> tetromino" where
  "lock_delay_piece E G delta_time p =
     (if lock_delay_active p then
        (let p1 = p\<lparr>lock_delay_timer := lock_delay_timer p + delta_time\<rparr> in
           if lock_delay_timer p1 \<ge> LOCK_DELAY E \<or> lock_moves_count p1 \<ge> MAX_LOCK_MOVES E then
             (if tet_is_touching_ground E G p1 then p1\<lparr>is_locked := True\<rparr>
              else p1\<lparr>lock_delay_active := False, lock_moves_count := 0,
                      lock_delay_timer := 0\<rparr>)
           else p1)
      else p)"

definition lock_delay_step ::
  "('gen, 'sc, 'ui) env \<Rightarrow> int \<Rightarrow> ref \<Rightarrow> ('gen, 'sc, 'ui) game \<Rightarrow> ('gen, 'sc, 'ui) game" where
  "lock_delay_step E delta_time a g =
     set_piece a (lock_delay_piece E (grid g) delta_time (heap g a)) g"

subsection \<open>The autoplay block\<close>

text \<open>The rotation loop of lines 307-311: at most \<open>max_rotation_attempts\<close> rotations, and
  a failed rotation ends the loop.\<close>

fun ai_rotate ::
  "('gen, 'sc, 'ui) env \<Rightarrow> grid \<Rightarrow> int \<Rightarrow> nat \<Rightarrow> tetromino \<Rightarrow> tetromino" where
  "ai_rotate E G target 0 p = p"
| "ai_rotate E G target (Suc attempts) p =
     (if rotation_state p \<noteq> target then
        (case tet_rotate E G p of
           (ok, p1) \<Rightarrow> if \<not> ok then p1 else ai_rotate E G target attempts p1)
      else p)"

text \<open>The two horizontal loops of lines 314-319.  Nothing in \<open>game.py\<close> bounds them: they
  end when the piece reaches the column or a move fails.  \<open>None\<close> is a loop that never
  ends.\<close>

partial_function (option) ai_move_right ::
  "('gen, 'sc, 'ui) env \<Rightarrow> grid \<Rightarrow> int \<Rightarrow> tetromino \<Rightarrow> tetromino option" where
  "ai_move_right E G target p =
     (if piece_x p < target then
        (if fst (tet_move E G p 1 0) then ai_move_right E G target (snd (tet_move E G p 1 0))
         else Some (snd (tet_move E G p 1 0)))
      else Some p)"

partial_function (option) ai_move_left ::
  "('gen, 'sc, 'ui) env \<Rightarrow> grid \<Rightarrow> int \<Rightarrow> tetromino \<Rightarrow> tetromino option" where
  "ai_move_left E G target p =
     (if piece_x p > target then
        (if fst (tet_move E G p (-1) 0) then ai_move_left E G target (snd (tet_move E G p (-1) 0))
         else Some (snd (tet_move E G p (-1) 0)))
      else Some p)"

text \<open>The loops run by their defining equations.\<close>

declare ai_move_right.simps [code]
declare ai_move_left.simps [code]

text \<open>Lines 301-323 on the piece: the best move decides rotation, column and one extra
  row.\<close>

definition ai_drive_piece ::
  "('gen, 'sc, 'ui) env \<Rightarrow> grid \<Rightarrow> best_move option \<Rightarrow> tetromino \<Rightarrow> tetromino option" where
  "ai_drive_piece E G best p =
     (case best of
        None \<Rightarrow> Some p
      | Some bm \<Rightarrow>
          (case ai_move_right E G (bm_x bm) (ai_rotate E G (bm_rotation bm) 4 p) of
             None \<Rightarrow> None
           | Some p2 \<Rightarrow>
               (case ai_move_left E G (bm_x bm) p2 of
                  None \<Rightarrow> None
                | Some p3 \<Rightarrow>
                    Some (if piece_y p3 < bm_y bm then snd (tet_move E G p3 0 1) else p3))))"

text \<open>Lines 299-328 for the current piece \<open>a\<close>, with the debug timer.\<close>

definition ai_step ::
  "('gen, 'sc, 'ui) env \<Rightarrow> int \<Rightarrow> ref \<Rightarrow> ('gen, 'sc, 'ui) game \<Rightarrow> ('gen, 'sc, 'ui) game option" where
  "ai_step E now a g =
     (if mode g = ''AI'' \<and> \<not> is_paused g then
        (case ai_drive_piece E (grid g) (ai_get_best_move E g) (heap g a) of
           None \<Rightarrow> None
         | Some p \<Rightarrow>
             Some (if now - ai_debug_timer g > ai_debug_interval g
                   then (set_piece a p g)\<lparr>ai_debug_timer := now\<rparr>
                   else set_piece a p g))
      else Some g)"

subsection \<open>The lock step\<close>

text \<open>Lines 354-369: the spin is classified on the board before the lock, the piece is
  locked, the full rows are listed on the locked board, and only then are rows removed.
  The result carries the spin, the listed rows and the state with the locked board.\<close>

definition lock_and_list ::
  "('gen, 'sc, 'ui) env \<Rightarrow> bool \<Rightarrow> ref \<Rightarrow> ('gen, 'sc, 'ui) game \<Rightarrow>
     (t_spin \<times> int list \<times> ('gen, 'sc, 'ui) game) result" where
  "lock_and_list E was_rotation a g =
     (case (if was_rotation then check_t_spin g else Inr SpinFalse) of
        Inl e \<Rightarrow> Inl e
      | Inr t_spin_type \<Rightarrow>
          (case lines_to_clear (grid_lock_piece E (grid g) (heap g a)) of
             Inl e \<Rightarrow> Inl e
           | Inr rows \<Rightarrow>
               Inr (t_spin_type, rows, g\<lparr>grid := grid_lock_piece E (grid g) (heap g a)\<rparr>)))"

definition clear_listed ::
  "('gen, 'sc, 'ui) env \<Rightarrow> int list \<Rightarrow> ('gen, 'sc, 'ui) game \<Rightarrow> ('gen, 'sc, 'ui) game result" where
  "clear_listed E rows g =
     (if length rows > 0 then
        (case create_line_clear_particles E g rows of
           Inl e \<Rightarrow> Inl e
         | Inr g1 \<Rightarrow> Inr (g1\<lparr>grid := grid_clear_lines E (grid g1)\<rparr>))
      else Inr g)"

text \<open>Lines 372-390: the score is updated, its notifications go to the HUD, and the
  counters of the piece are reset.\<close>

definition score_and_reset ::
  "('gen, 'sc, 'ui) env \<Rightarrow> nat \<Rightarrow> t_spin \<Rightarrow> ('gen, 'sc, 'ui) game \<Rightarrow> ('gen, 'sc, 'ui) game" where
  "score_and_reset E lines_cleared t_spin_type g =
     (case sc_update E (score g) lines_cleared t_spin_type False
             (drop_height g) (soft_drop_count g) (hard_drop_count g) of
        ((turn_score, notifications), sc) \<Rightarrow>
          (g\<lparr>score := sc,
             ui := (if notifications \<noteq> [] then hud_add_notifications E (ui g) notifications
                    else ui g)\<rparr>)
           \<lparr>drop_height := 0, soft_drop_count := 0, hard_drop_count := 0,
            last_rotation := False, last_move_was_rotation := False\<rparr>)"

text \<open>Lines 392-394.\<close>

definition level_and_speed ::
  "('gen, 'sc, 'ui) env \<Rightarrow> nat \<Rightarrow> ('gen, 'sc, 'ui) game \<Rightarrow> ('gen, 'sc, 'ui) game" where
  "level_and_speed E lines_cleared g =
     (if lines_cleared > 0 then
        update_drop_speed E (g\<lparr>score := sc_update_level E (score g)\<rparr>)
      else g)"

text \<open>Lines 396-397.\<close>

definition board_clear_bonus ::
  "('gen, 'sc, 'ui) env \<Rightarrow> ('gen, 'sc, 'ui) game \<Rightarrow> ('gen, 'sc, 'ui) game" where
  "board_clear_bonus E g =
     (if grid_is_board_clear E (grid g) then
        g\<lparr>score := snd (sc_add_tetris_clear_bonus E (score g))\<rparr>
      else g)"

text \<open>Lines 399-406: the next piece, and the end of the session when it collides.\<close>

definition spawn_after_lock ::
  "('gen, 'sc, 'ui) env \<Rightarrow> ('gen, 'sc, 'ui) game \<Rightarrow> ('gen, 'sc, 'ui) game" where
  "spawn_after_lock E g =
     (case draw_next_piece E g of
        (a, g1) \<Rightarrow>
          (let g2 = g1\<lparr>can_hold := True\<rparr> in
             if grid_is_collision E (grid g2) (heap g2 a) then
               check_high_score E (g2\<lparr>game_over := True, current_screen := ''game_over''\<rparr>)
             else g2))"

text \<open>Lines 352-406, the body of \<open>if self.current_piece.is_locked\<close>.\<close>

definition lock_and_clear ::
  "('gen, 'sc, 'ui) env \<Rightarrow> bool \<Rightarrow> ref \<Rightarrow> ('gen, 'sc, 'ui) game \<Rightarrow> ('gen, 'sc, 'ui) game result" where
  "lock_and_clear E was_rotation a g =
     (case lock_and_list E was_rotation a g of
        Inl e \<Rightarrow> Inl e
      | Inr (t_spin_type, rows, g1) \<Rightarrow>
          (case clear_listed E rows g1 of
             Inl e \<Rightarrow> Inl e
           | Inr g2 \<Rightarrow>
               Inr (spawn_after_lock E
                      (board_clear_bonus E
                         (level_and_speed E (length rows)
                            (score_and_reset E (length rows) t_spin_type g2))))))"

subsection \<open>\<open>Game.update\<close>\<close>

text \<open>Lines 408-414, the end of a frame of the game screen.\<close>

definition finish_frame ::
  "('gen, 'sc, 'ui) env \<Rightarrow> ('gen, 'sc, 'ui) game \<Rightarrow> ('gen, 'sc, 'ui) game" where
  "finish_frame E g =
     (let g1 = g\<lparr>ui := transition_update E (ui g)\<rparr>;
          g2 = (case level_up_effect g1 of
                  None \<Rightarrow> g1
                | Some t \<Rightarrow>
                    if t - 1 / 60 \<le> 0 then g1\<lparr>level_up_effect := None\<rparr>
                    else g1\<lparr>level_up_effect := Some (t - 1 / 60)\<rparr>)
      in g2\<lparr>ui := hud_update E (ui g2)\<rparr>)"

text \<open>Lines 295-406, the body of \<open>if self.current_piece\<close> for the current piece \<open>a\<close>.
  \<open>was_rotation\<close> is read after the autoplay block and before gravity.\<close>

definition piece_frame ::
  "('gen, 'sc, 'ui) env \<Rightarrow> int \<Rightarrow> int \<Rightarrow> ref \<Rightarrow> ('gen, 'sc, 'ui) game \<Rightarrow>
     ('gen, 'sc, 'ui) game result option" where
  "piece_frame E now delta_time a g =
     (case ai_step E now a (set_piece a (tet_update_position E (grid g) (heap g a)) g) of
        None \<Rightarrow> None
      | Some g1 \<Rightarrow>
          (let was_rotation = last_move_was_rotation g1;
               g2 = lock_delay_step E delta_time a (gravity_step E a g1)
           in if is_locked (heap g2 a) then Some (lock_and_clear E was_rotation a g2)
              else Some (Inr g2)))"

text \<open>Lines 274-414, the branch of the screen \<open>'game'\<close>.\<close>

definition update_game ::
  "('gen, 'sc, 'ui) env \<Rightarrow> int \<Rightarrow> ('gen, 'sc, 'ui) game \<Rightarrow> ('gen, 'sc, 'ui) game result option" where
  "update_game E now g0 =
     (let g = g0\<lparr>ui := particles_update E (ui g0)\<rparr> in
        case start_timer g of
          Some t \<Rightarrow>
            if t - 1 / 60 \<le> 0 then
              Some (Inr ((snd (draw_next_piece E (g\<lparr>start_timer := None\<rparr>)))\<lparr>can_hold := True\<rparr>))
            else Some (Inr (g\<lparr>start_timer := Some (t - 1 / 60)\<rparr>))
        | None \<Rightarrow>
            if game_over g \<or> is_paused g then Some (Inr g)
            else
              (let delta_time = now - last_update_time g;
                   g1 = advance_clock now g
               in case current_piece g1 of
                    None \<Rightarrow> Some (Inr (finish_frame E g1))
                  | Some a \<Rightarrow>
                      (case piece_frame E now delta_time a g1 of
                         None \<Rightarrow> None
                       | Some (Inl e) \<Rightarrow> Some (Inl e)
                       | Some (Inr g2) \<Rightarrow> Some (Inr (finish_frame E g2)))))"

text \<open>\<open>Game.update\<close> (lines 259-414).  \<open>None\<close>: a loop of the autoplay block never ends;
  \<open>Some (Inl e)\<close>: the exception \<open>e\<close> leaves \<open>update\<close>.\<close>

definition update ::
  "('gen, 'sc, 'ui) env \<Rightarrow> int \<Rightarrow> ('gen, 'sc, 'ui) game \<Rightarrow> ('gen, 'sc, 'ui) game result option" where
  "update E now g =
     (if current_screen g = ''menu'' then Some (Inr (g\<lparr>ui := menu_update E (ui g)\<rparr>))
      else if current_screen g = ''transition_to_game'' then
        (let g1 = g\<lparr>ui := transition_update E (ui g)\<rparr> in
           if \<not> transition_is_active E (ui g1) then
             Some (Inr (g1\<lparr>current_screen := ''countdown'', countdown_timer := Some 3\<rparr>))
           else Some (Inr g1))
      else if current_screen g = ''countdown'' then
        (case countdown_timer g of
           None \<Rightarrow> Some (Inl TypeError)
         | Some t \<Rightarrow>
             (let g1 = g\<lparr>countdown_timer := Some (t - 1 / 60)\<rparr> in
                if t - 1 / 60 \<le> 0 then
                  Some (Inr ((snd (draw_next_piece E (g1\<lparr>current_screen := ''game''\<rparr>)))
                               \<lparr>can_hold := True\<rparr>))
                else Some (Inr g1)))
      else if current_screen g = ''game'' then update_game E now g
      else Some (Inr g))"

section \<open>Holding a piece\<close>

text \<open>\<open>Game.hold_piece\<close> (lines 665-677).  Each \<open>Tetromino(...)\<close> is a new object.  Without a
  current piece the first statement of either branch raises.\<close>

definition hold_piece ::
  "('gen, 'sc, 'ui) env \<Rightarrow> ('gen, 'sc, 'ui) game \<Rightarrow> ('gen, 'sc, 'ui) game result" where
  "hold_piece E g =
     (case current_piece g of
        None \<Rightarrow> Inl AttributeError
      | Some a \<Rightarrow>
          (case held_piece g of
             None \<Rightarrow>
               (case alloc (tet_new E (shape_name (heap g a)) (grid g)) g of
                  (h, g1) \<Rightarrow> Inr (snd (draw_next_piece E (g1\<lparr>held_piece := Some h\<rparr>))))
           | Some h0 \<Rightarrow>
               (let temp_shape_name = shape_name (heap g a) in
                  case alloc (tet_new E (shape_name (heap g h0)) (grid g)) g of
                    (c, g1) \<Rightarrow>
                      (let g2 = set_piece c (tet_reset_position E (grid g1) (heap g1 c))
                                  (g1\<lparr>current_piece := Some c\<rparr>)
                       in case alloc (tet_new E temp_shape_name (grid g2)) g2 of
                            (h, g3) \<Rightarrow> Inr (g3\<lparr>held_piece := Some h\<rparr>)))))"

text \<open>The key \<open>c\<close> in \<open>handle_events\<close> (lines 198-201): one hold per piece.\<close>

definition press_hold ::
  "('gen, 'sc, 'ui) env \<Rightarrow> ('gen, 'sc, 'ui) game \<Rightarrow> ('gen, 'sc, 'ui) game result" where
  "press_hold E g =
     (if can_hold g then
        (case hold_piece E g of Inl e \<Rightarrow> Inl e | Inr g1 \<Rightarrow> Inr (g1\<lparr>can_hold := False\<rparr>))
      else Inr g)"

section \<open>Runs of the game\<close>

text \<open>A run of calls of \<open>update\<close>, one per clock reading; it ends at the first call that
  does not return a state.\<close>

fun updates ::
  "('gen, 'sc, 'ui) env \<Rightarrow> int list \<Rightarrow> ('gen, 'sc, 'ui) game \<Rightarrow> ('gen, 'sc, 'ui) game result option" where
  "updates E [] g = Some (Inr g)"
| "updates E (now # later) g =
     (case update E now g of
        Some (Inr g1) \<Rightarrow> updates E later g1
      | other \<Rightarrow> other)"

text \<open>Two states agree on the end of the session, the start timer and the screen.\<close>

definition same_session :: "('gen, 'sc, 'ui) game \<Rightarrow> ('gen, 'sc, 'ui) game \<Rightarrow> bool" where
  "same_session g g' \<longleftrightarrow>
     game_over g' = game_over g \<and> start_timer g' = start_timer g
     \<and> current_screen g' = current_screen g"

text \<open>The screens a finished session shows.\<close>

definition closing_screen :: "string \<Rightarrow> bool" where
  "closing_screen s \<longleftrightarrow> s = ''enter_name'' \<or> s = ''high_scores''"

section \<open>Specification-level notions\<close>

text \<open>The invariant of the playfield: \<open>height\<close> rows of \<open>width\<close> cells each.\<close>

definition wf_grid :: "grid \<Rightarrow> bool" where
  "wf_grid G \<longleftrightarrow>
     int (length (cells G)) = height G \<and> list_all (\<lambda>r. int (length r) = width G) (cells G)"

text \<open>A cell is inside the board.\<close>

definition in_board :: "grid \<Rightarrow> int \<Rightarrow> int \<Rightarrow> bool" where
  "in_board G cx cy \<longleftrightarrow> 0 \<le> cx \<and> cx < width G \<and> 0 \<le> cy \<and> cy < height G"

text \<open>A cell counts as filled, in the words of the specification: every cell outside
  the board, and every cell of the board that is not \<open>0\<close>.\<close>

definition filled :: "grid \<Rightarrow> int \<times> int \<Rightarrow> bool" where
  "filled G c =
     (if in_board G (fst c) (snd c) then cells G ! nat (snd c) ! nat (fst c) \<noteq> Num 0 else True)"

text \<open>Row \<open>r\<close> of the board has no empty cell.\<close>

definition full_row :: "grid \<Rightarrow> int \<Rightarrow> bool" where
  "full_row G r \<longleftrightarrow> list_all (\<lambda>c. cells G ! nat r ! nat c \<noteq> Num 0) [0 .. width G - 1]"

text \<open>\<open>Score.update\<close> and the all-clear bonus leave the level alone: in the specification
  only \<open>updateLevel\<close> changes it.\<close>

definition score_keeps_level :: "('gen, 'sc, 'ui) env \<Rightarrow> bool" where
  "score_keeps_level E \<longleftrightarrow>
     (\<forall>sc n t b dh sd hd. sc_level E (snd (sc_update E sc n t b dh sd hd)) = sc_level E sc) \<and>
     (\<forall>sc. sc_level E (snd (sc_add_tetris_clear_bonus E sc)) = sc_level E sc)"

text \<open>A horizontal move that succeeds shifts the piece by the step asked for (section 4.2
  of the specification).\<close>

definition honest_moves :: "('gen, 'sc, 'ui) env \<Rightarrow> grid \<Rightarrow> bool" where
  "honest_moves E G \<longleftrightarrow>
     (\<forall>p dx. fst (tet_move E G p dx 0) \<longrightarrow> piece_x (snd (tet_move E G p dx 0)) = piece_x p + dx)"

text \<open>The references a game holds point to objects that exist.\<close>

definition refs_allocated :: "('gen, 'sc, 'ui) game \<Rightarrow> bool" where
  "refs_allocated g \<longleftrightarrow>
     (\<forall>a. current_piece g = Some a \<longrightarrow> a < next_ref g) \<and>
     (\<forall>h. held_piece g = Some h \<longrightarrow> h < next_ref g)"

section \<open>An instance of the collaborators\<close>

text \<open>
  Modelled from the spec: \<open>Grid\<close>, \<open>Tetromino\<close>, \<open>PieceGenerator\<close> and \<open>Score\<close> are not
  part of \<open>game.py\<close>.  The instance below follows sections 4.1, 4.2 and 4.5 of the
  specification where it fixes a behaviour (collision, locking, clearing, touching the
  ground, moving, the level formula) and is the simplest choice elsewhere: rotation
  without kicks, a generator that cycles through its queue, a score with line points
  only, no presentation state.  It serves to run the model on concrete boards.
\<close>

definition empty_grid :: "int \<Rightarrow> int \<Rightarrow> grid" where
  "empty_grid w h =
     \<lparr>width = w, height = h, cells = replicate (nat h) (replicate (nat w) (Num 0)),
      x_offset = 0, y_offset = 0, cell_size = 30\<rparr>"

definition demo_box :: "string \<Rightarrow> int" where
  "demo_box name = (if name = ''I'' then 4 else if name = ''O'' then 2 else 3)"

definition demo_shape :: "string \<Rightarrow> (int \<times> int) list" where
  "demo_shape name =
     (if name = ''I'' then [(0, 1), (1, 1), (2, 1), (3, 1)]
      else if name = ''O'' then [(0, 0), (1, 0), (0, 1), (1, 1)]
      else if name = ''T'' then [(1, 0), (0, 1), (1, 1), (2, 1)]
      else if name = ''S'' then [(1, 0), (2, 0), (0, 1), (1, 1)]
      else if name = ''Z'' then [(0, 0), (1, 0), (1, 1), (2, 1)]
      else if name = ''J'' then [(0, 0), (0, 1), (1, 1), (2, 1)]
      else [(2, 0), (0, 1), (1, 1), (2, 1)])"

text \<open>The cells a piece occupies: its shape turned clockwise once per rotation state and
  moved to its position.\<close>

definition demo_blocks :: "tetromino \<Rightarrow> (int \<times> int) list" where
  "demo_blocks p =
     map (\<lambda>c. (piece_x p + fst c, piece_y p + snd c))
       (((map (\<lambda>c. (demo_box (shape_name p) - 1 - snd c, fst c)))
           ^^ nat (rotation_state p mod 4)) (demo_shape (shape_name p)))"

definition demo_is_collision :: "grid \<Rightarrow> tetromino \<Rightarrow> bool" where
  "demo_is_collision G p =
     list_ex (\<lambda>c. fst c < 0 \<or> fst c \<ge> width G \<or> snd c \<ge> height G \<or>
                  (snd c \<ge> 0 \<and> cell_at (cells G) (snd c) (fst c) \<noteq> Inr (Num 0)))
       (demo_blocks p)"

definition demo_is_touching_ground :: "grid \<Rightarrow> tetromino \<Rightarrow> bool" where
  "demo_is_touching_ground G p = demo_is_collision G (p\<lparr>piece_y := piece_y p + 1\<rparr>)"

definition demo_grounded :: "grid \<Rightarrow> tetromino \<Rightarrow> tetromino" where
  "demo_grounded G p =
     (if demo_is_touching_ground G p then
        p\<lparr>lock_delay_active := True, lock_delay_timer := 0,
          lock_moves_count := lock_moves_count p + 1\<rparr>
      else p)"

definition demo_move :: "grid \<Rightarrow> tetromino \<Rightarrow> int \<Rightarrow> int \<Rightarrow> bool \<times> tetromino" where
  "demo_move G p dx dy =
     (if demo_is_collision G (p\<lparr>piece_x := piece_x p + dx, piece_y := piece_y p + dy\<rparr>)
      then (False, p)
      else (True, demo_grounded G (p\<lparr>piece_x := piece_x p + dx, piece_y := piece_y p + dy\<rparr>)))"

definition demo_rotate :: "grid \<Rightarrow> tetromino \<Rightarrow> bool \<times> tetromino" where
  "demo_rotate G p =
     (if demo_is_collision G (p\<lparr>rotation_state := (rotation_state p + 1) mod 4\<rparr>)
      then (False, p)
      else (True, demo_grounded G (p\<lparr>rotation_state := (rotation_state p + 1) mod 4\<rparr>)))"

definition demo_update_position :: "grid \<Rightarrow> tetromino \<Rightarrow> tetromino" where
  "demo_update_position G p =
     (if demo_is_touching_ground G p then p\<lparr>lock_delay_active := True\<rparr> else p)"

definition demo_new :: "string \<Rightarrow> grid \<Rightarrow> tetromino" where
  "demo_new name G =
     \<lparr>shape_name = name, piece_x = width G div 2 - 2, piece_y = 0, rotation_state = 0,
      lock_delay_active = False, lock_delay_timer = 0, lock_moves_count = 0,
      is_locked = False\<rparr>"

definition demo_reset_position :: "grid \<Rightarrow> tetromino \<Rightarrow> tetromino" where
  "demo_reset_position G p = p\<lparr>piece_x := width G div 2 - 2, piece_y := 0, rotation_state := 0\<rparr>"

definition demo_put :: "int \<times> int \<Rightarrow> cell list list \<Rightarrow> cell list list" where
  "demo_put c cs =
     (if 0 \<le> snd c \<and> snd c < int (length cs) \<and> 0 \<le> fst c
           \<and> fst c < int (length (cs ! nat (snd c)))
      then cs[nat (snd c) := (cs ! nat (snd c))[nat (fst c) := Colour 160 0 240]]
      else cs)"

definition demo_lock_piece :: "grid \<Rightarrow> tetromino \<Rightarrow> grid" where
  "demo_lock_piece G p = G\<lparr>cells := fold demo_put (demo_blocks p) (cells G)\<rparr>"

definition demo_clear_lines :: "grid \<Rightarrow> grid" where
  "demo_clear_lines G =
     (let kept = filter (\<lambda>r. \<not> list_all (\<lambda>c. c \<noteq> Num 0) r) (cells G) in
        G\<lparr>cells := replicate (length (cells G) - length kept)
                     (replicate (nat (width G)) (Num 0)) @ kept\<rparr>)"

definition demo_is_board_clear :: "grid \<Rightarrow> bool" where
  "demo_is_board_clear G = list_all (list_all (\<lambda>c. c = Num 0)) (cells G)"

definition demo_get_next_piece :: "string list \<Rightarrow> grid \<Rightarrow> tetromino \<times> string list" where
  "demo_get_next_piece q G =
     (case q of [] \<Rightarrow> (demo_new ''O'' G, []) | name # names \<Rightarrow> (demo_new name G, names @ [name]))"

text \<open>The score of the instance: points, level and cleared lines.\<close>

definition demo_sc_update ::
  "int \<times> int \<times> int \<Rightarrow> nat \<Rightarrow> t_spin \<Rightarrow> bool \<Rightarrow> int \<Rightarrow> int \<Rightarrow> int \<Rightarrow>
     (int \<times> string list) \<times> (int \<times> int \<times> int)" where
  "demo_sc_update sc n t b height_dropped soft hard =
     (case sc of
        (pts, lvl, cleared) \<Rightarrow>
          (let gain = (if n = 0 then 0 else if n = 1 then 100 else if n = 2 then 300
                       else if n = 3 then 500 else 800) * lvl + soft + 2 * hard
           in ((gain, if n \<ge> 4 then [''Tetris!''] else []), (pts + gain, lvl, cleared + int n))))"

definition demo_sc_update_level :: "int \<times> int \<times> int \<Rightarrow> int \<times> int \<times> int" where
  "demo_sc_update_level sc =
     (case sc of (pts, lvl, cleared) \<Rightarrow> (pts, max lvl (1 + cleared div 10), cleared))"

definition demo_env :: "(string list, int \<times> int \<times> int, unit) env" where
  "demo_env =
     \<lparr>LOCK_DELAY = 500, MAX_LOCK_MOVES = 15, INITIAL_DROP_SPEED = 1000,
      MIN_DROP_SPEED = 100, SPEED_INCREMENT = 50,
      tet_new = demo_new, tet_move = demo_move, tet_rotate = demo_rotate,
      tet_is_touching_ground = demo_is_touching_ground,
      tet_update_position = demo_update_position,
      tet_reset_position = demo_reset_position,
      grid_lock_piece = demo_lock_piece, grid_clear_lines = demo_clear_lines,
      grid_is_board_clear = demo_is_board_clear, grid_is_collision = demo_is_collision,
      gen_get_next_piece = demo_get_next_piece,
      gen_preview_next_pieces = (\<lambda>q. (take 3 q, q)),
      sc_update = demo_sc_update, sc_update_level = demo_sc_update_level,
      sc_level = (\<lambda>sc. fst (snd sc)), sc_points = fst,
      sc_add_tetris_clear_bonus = (\<lambda>sc. (2000, (fst sc + 2000, snd sc))),
      high_score_is_high_score = (\<lambda>pts. pts > 0),
      ai_get_best_move = (\<lambda>g. None),
      menu_update = (\<lambda>u. u), particles_update = (\<lambda>u. u),
      particles_add_particle = (\<lambda>u px py c. u),
      transition_update = (\<lambda>u. u), transition_is_active = (\<lambda>u. False),
      hud_update = (\<lambda>u. u), hud_add_notifications = (\<lambda>u ns. u),
      input_box_new = (\<lambda>u. u)\<rparr>"

text \<open>A game on the screen \<open>'game'\<close> with the board \<open>G\<close>, one piece \<open>p\<close> as the current
  piece, an empty hold slot and the rotation flag \<open>rot\<close>.\<close>

definition demo_game ::
  "grid \<Rightarrow> tetromino \<Rightarrow> bool \<Rightarrow> (string list, int \<times> int \<times> int, unit) game" where
  "demo_game G p rot =
     \<lparr>current_screen = ''game'', mode = ''Classic Mode'', grid = G,
      piece_generator = [''O'', ''T'', ''I''], current_piece = Some 0,
      next_pieces = [''O'', ''T'', ''I''], score = (0, 1, 0), ui = (),
      is_paused = False, game_over = False, drop_timer = 0, drop_speed = 1000,
      last_update_time = 0, soft_drop_count = 0, drop_height = 0, last_rotation = False,
      last_move_was_rotation = rot, hard_drop_count = 0, level_up_effect = None,
      start_timer = None, countdown_timer = None, held_piece = None, can_hold = True,
      ai_debug_timer = 0, ai_debug_interval = 1000, heap = (\<lambda>r. p), next_ref = 1\<rparr>"

text \<open>A board of 10 by 20 cells whose two bottom rows are full.\<close>

definition two_full_rows :: grid where
  "two_full_rows =
     (empty_grid 10 20)\<lparr>cells := replicate 18 (replicate 10 (Num 0))
                                  @ replicate 2 (replicate 10 (Colour 0 240 240))\<rparr>"

text \<open>A board of 10 by 20 cells: the bottom row is full, and the row above it lacks the
  columns 0 to 2.\<close>

definition gap_board :: grid where
  "gap_board =
     (empty_grid 10 20)\<lparr>cells := replicate 18 (replicate 10 (Num 0))
        @ [replicate 3 (Num 0) @ replicate 7 (Colour 0 240 240),
           replicate 10 (Colour 0 240 240)]\<rparr>"

text \<open>A board of 10 by 20 cells with a slot for a T piece at the left wall: row 17 is
  filled from column 2 on, row 18 from column 3 on, and the bottom row lacks column 1.\<close>

definition t_slot_board :: grid where
  "t_slot_board =
     (empty_grid 10 20)\<lparr>cells := replicate 17 (replicate 10 (Num 0))
        @ [replicate 2 (Num 0) @ replicate 8 (Colour 0 240 240),
           replicate 3 (Num 0) @ replicate 7 (Colour 0 240 240),
           Colour 0 240 240 # Num 0 # replicate 8 (Colour 0 240 240)]\<rparr>"

text \<open>A board of 10 by 20 cells on which the columns 5 and 6 are stacked up to row 1:
  only the top row is free there.\<close>

definition topped_out :: grid where
  "topped_out =
     (empty_grid 10 20)\<lparr>cells :=
        replicate 10 (Num 0)
        # replicate 19 (replicate 5 (Num 0) @ replicate 2 (Colour 0 240 240)
                         @ replicate 3 (Num 0))\<rparr>"

text \<open>A T piece in rotation state \<open>r\<close> at \<open>(px, py)\<close>.\<close>

definition t_piece :: "int \<Rightarrow> int \<Rightarrow> int \<Rightarrow> tetromino" where
  "t_piece px py r = (demo_new ''T'' (empty_grid 10 20))\<lparr>piece_x := px, piece_y := py, rotation_state := r\<rparr>"

text \<open>A game whose T piece rests on the two full rows with the lock delay running.\<close>

definition resting_game :: "(string list, int \<times> int \<times> int, unit) game" where
  "resting_game = demo_game two_full_rows ((t_piece 0 15 2)\<lparr>lock_delay_active := True\<rparr>) False"

text \<open>A game whose T piece has left the ground while its lock delay was running.\<close>

definition floating_game :: "(string list, int \<times> int \<times> int, unit) game" where
  "floating_game =
     demo_game two_full_rows
       ((t_piece 0 10 2)\<lparr>lock_delay_active := True, lock_delay_timer := 400\<rparr>) False"

text \<open>A game whose T piece falls freely.\<close>

definition falling_game :: "(string list, int \<times> int \<times> int, unit) game" where
  "falling_game = demo_game two_full_rows (t_piece 3 5 0) False"

text \<open>A game with nine lines cleared so far, whose T piece is about to fill the gap.\<close>

definition gap_game :: "(string list, int \<times> int \<times> int, unit) game" where
  "gap_game = (demo_game gap_board (t_piece 0 17 0) True)\<lparr>score := (0, 1, 9)\<rparr>"

text \<open>A game on the stacked board whose O piece stands at its spawn position, with the
  I piece next.\<close>

definition topped_out_game :: "(string list, int \<times> int \<times> int, unit) game" where
  "topped_out_game =
     (demo_game topped_out (demo_new ''O'' topped_out) False)
       \<lparr>piece_generator := [''I'', ''T'', ''O''], next_pieces := [''I'', ''T'', ''O'']\<rparr>"

text \<open>A game that holds an I piece beside its falling T piece.\<close>

definition holding_game :: "(string list, int \<times> int \<times> int, unit) game" where
  "holding_game =
     falling_game\<lparr>held_piece := Some 1,
                  heap := (heap falling_game)(1 := demo_new ''I'' two_full_rows),
                  next_ref := 2\<rparr>"

text \<open>A game on the stacked board whose T piece has been dropped to the floor beside the
  stack and marked locked, with the I piece next.\<close>

definition last_game :: "(string list, int \<times> int \<times> int, unit) game" where
  "last_game = topped_out_game\<lparr>heap := (\<lambda>r. (t_piece 0 18 0)\<lparr>is_locked := True\<rparr>)\<rparr>"

text \<open>The game on the stacked board once the session is over.\<close>

definition over_game :: "(string list, int \<times> int \<times> int, unit) game" where
  "over_game = topped_out_game\<lparr>game_over := True\<rparr>"

section \<open>Facts about indexing and the board\<close>

lemma py_index_in_range:
  "0 \<le> i \<Longrightarrow> i < int (length xs) \<Longrightarrow> py_index xs i = Inr (xs ! nat i)"
  by (simp add: py_index_def)

lemma wf_grid_row_length:
  "wf_grid G \<Longrightarrow> 0 \<le> r \<Longrightarrow> r < height G \<Longrightarrow> int (length (cells G ! nat r)) = width G"
  by (simp add: wf_grid_def list_all_length nat_less_iff)

lemma cell_at_in_board:
  assumes "wf_grid G" and "in_board G c r"
  shows "cell_at (cells G) r c = Inr (cells G ! nat r ! nat c)"
proof -
  from assms have r: "0 \<le> r" "r < int (length (cells G))"
    by (simp_all add: in_board_def wf_grid_def)
  from assms have c: "0 \<le> c" "c < int (length (cells G ! nat r))"
    by (simp_all add: in_board_def wf_grid_row_length)
  show ?thesis
    by (simp add: cell_at_def py_index_in_range r c)
qed

lemma truthy_iff: "truthy c \<longleftrightarrow> c \<noteq> Num 0"
  by (cases c) simp_all

lemma is_cell_filled_outside:
  "\<not> in_board (grid g) c r \<Longrightarrow> is_cell_filled g c r = Inr True"
  by (auto simp: is_cell_filled_def in_board_def)

lemma is_cell_filled_inside:
  "wf_grid (grid g) \<Longrightarrow> in_board (grid g) c r \<Longrightarrow>
     is_cell_filled g c r = Inr (cells (grid g) ! nat r ! nat c \<noteq> Num 0)"
  by (simp add: is_cell_filled_def cell_at_in_board truthy_iff) (simp add: in_board_def)

lemma is_cell_filled_filled:
  "wf_grid (grid g) \<Longrightarrow> is_cell_filled g c r = Inr (filled (grid g) (c, r))"
  by (simp add: filled_def is_cell_filled_outside is_cell_filled_inside)

lemma wf_two_full_rows: "wf_grid two_full_rows"
  by (simp add: wf_grid_def two_full_rows_def empty_grid_def list_all_iff)

lemma grid_demo_game: "grid (demo_game G p rot) = G"
  by (simp add: demo_game_def)

lemma count_filled_wf:
  "wf_grid (grid g) \<Longrightarrow> count_filled g cs = Inr (length (filter (filled (grid g)) cs))"
  by (induction cs) (auto simp: is_cell_filled_filled)

lemma t_corners_eq:
  "t_corners p =
     [(piece_x p, piece_y p), (piece_x p + 2, piece_y p),
      (piece_x p, piece_y p + 2), (piece_x p + 2, piece_y p + 2)]"
  by (simp add: t_corners_def)

lemma front_back_partition:
  "set (get_front_corners p) \<inter> set (get_back_corners p) = {} \<and>
   set (get_front_corners p) \<union> set (get_back_corners p) = set (t_corners p)"
  by (auto simp: get_front_corners_def get_back_corners_def t_corners_eq)

lemma front_back_count:
  "length (filter P (get_front_corners p)) + length (filter P (get_back_corners p))
     = length (filter P (t_corners p))"
  by (simp add: get_front_corners_def get_back_corners_def t_corners_eq)

lemma t_piece_simps:
  "shape_name (t_piece px py r) = ''T''" "piece_x (t_piece px py r) = px"
  "piece_y (t_piece px py r) = py" "rotation_state (t_piece px py r) = r"
  by (simp_all add: t_piece_def demo_new_def)

lemma demo_game_simps:
  "current_piece (demo_game G p rot) = Some 0" "heap (demo_game G p rot) a = p"
  "last_move_was_rotation (demo_game G p rot) = rot"
  by (simp_all add: demo_game_def)

lemma wf_t_slot_board: "wf_grid t_slot_board"
  by code_simp

lemma filled_t_slot_board:
  "\<not> filled t_slot_board (0, 17)" "filled t_slot_board (2, 17)"
  "filled t_slot_board (0, 19)" "filled t_slot_board (2, 19)"
  "\<not> filled t_slot_board (3, 5)" "\<not> filled t_slot_board (5, 5)"
  "\<not> filled t_slot_board (3, 7)" "\<not> filled t_slot_board (5, 7)"
  by code_simp+

section \<open>Out-of-board cells count as filled\<close>

text \<open>
  Claim C5.  \<open>is_cell_filled\<close> answers for every pair of integers.  Outside the board
  (\<open>x < 0\<close>, \<open>x \<ge> width\<close>, \<open>y < 0\<close> or \<open>y \<ge> height\<close>) the answer is \<open>True\<close>, whatever the
  cells are.  Inside a board that has \<open>height\<close> rows of \<open>width\<close> cells, the read
  \<open>cells[y][x]\<close> stays within both lists, raises nothing, and the answer is \<open>True\<close>
  exactly when that cell is not \<open>0\<close>.
\<close>

theorem is_cell_filled_total:
  "(cx < 0 \<or> cx \<ge> width (grid g) \<or> cy < 0 \<or> cy \<ge> height (grid g)
      \<longrightarrow> is_cell_filled g cx cy = Inr True) \<and>
   (wf_grid (grid g) \<and> 0 \<le> cx \<and> cx < width (grid g) \<and> 0 \<le> cy \<and> cy < height (grid g)
      \<longrightarrow> cell_at (cells (grid g)) cy cx = Inr (cells (grid g) ! nat cy ! nat cx)
          \<and> nat cy < length (cells (grid g))
          \<and> nat cx < length (cells (grid g) ! nat cy)
          \<and> is_cell_filled g cx cy = Inr (cells (grid g) ! nat cy ! nat cx \<noteq> Num 0))"
proof (intro conjI impI)
  assume "cx < 0 \<or> cx \<ge> width (grid g) \<or> cy < 0 \<or> cy \<ge> height (grid g)"
  then have "\<not> in_board (grid g) cx cy"
    by (auto simp: in_board_def)
  then show "is_cell_filled g cx cy = Inr True"
    by (rule is_cell_filled_outside)
next
  assume a: "wf_grid (grid g) \<and> 0 \<le> cx \<and> cx < width (grid g) \<and> 0 \<le> cy \<and> cy < height (grid g)"
  then have w: "wf_grid (grid g)" and b: "in_board (grid g) cx cy"
    by (simp_all add: in_board_def)
  show "cell_at (cells (grid g)) cy cx = Inr (cells (grid g) ! nat cy ! nat cx)"
    using w b by (rule cell_at_in_board)
  show "is_cell_filled g cx cy = Inr (cells (grid g) ! nat cy ! nat cx \<noteq> Num 0)"
    using w b by (rule is_cell_filled_inside)
  from a show "nat cy < length (cells (grid g))"
    by (simp add: wf_grid_def nat_less_iff)
  from a wf_grid_row_length [of "grid g" cy] show "nat cx < length (cells (grid g) ! nat cy)"
    by (simp add: nat_less_iff)
qed

text \<open>On the board with two full bottom rows: a cell left of the board, a cell below it,
  a cell of a full row and an empty cell.\<close>

theorem is_cell_filled_total_witness:
  "wf_grid two_full_rows \<and>
   is_cell_filled (demo_game two_full_rows (t_piece 3 0 0) False) (-1) 5 = Inr True \<and>
   is_cell_filled (demo_game two_full_rows (t_piece 3 0 0) False) 3 20 = Inr True \<and>
   is_cell_filled (demo_game two_full_rows (t_piece 3 0 0) False) 3 18 = Inr True \<and>
   is_cell_filled (demo_game two_full_rows (t_piece 3 0 0) False) 3 17 = Inr False"
  using is_cell_filled_total [of "-1" "demo_game two_full_rows (t_piece 3 0 0) False" 5]
    is_cell_filled_total [of 3 "demo_game two_full_rows (t_piece 3 0 0) False" 20]
    is_cell_filled_total [of 3 "demo_game two_full_rows (t_piece 3 0 0) False" 18]
    is_cell_filled_total [of 3 "demo_game two_full_rows (t_piece 3 0 0) False" 17]
    wf_two_full_rows
  by (simp add: grid_demo_game) (simp add: two_full_rows_def empty_grid_def nth_append)

section \<open>The corner tables\<close>

text \<open>
  Claim C10.  Whatever the rotation state (0 to 3 are the states of a piece; every other
  value takes the last branch, as 3 does), \<open>get_front_corners\<close> and \<open>get_back_corners\<close>
  return two cells each, no cell is in both, and together they are the four diagonal
  cells \<open>(x, y)\<close>, \<open>(x + 2, y)\<close>, \<open>(x, y + 2)\<close>, \<open>(x + 2, y + 2)\<close> that \<open>check_t_spin\<close>
  inspects.  Hence, on every board with \<open>height\<close> rows of \<open>width\<close> cells, the three counts
  succeed and the number of filled front corners plus the number of filled back corners
  is the number of filled corners.
\<close>

theorem corners_split_front_back:
  "length (get_front_corners p) = 2 \<and> length (get_back_corners p) = 2 \<and>
   set (get_front_corners p) \<inter> set (get_back_corners p) = {} \<and>
   set (get_front_corners p) \<union> set (get_back_corners p) =
     {(piece_x p, piece_y p), (piece_x p + 2, piece_y p),
      (piece_x p, piece_y p + 2), (piece_x p + 2, piece_y p + 2)} \<and>
   set (t_corners p) =
     {(piece_x p, piece_y p), (piece_x p + 2, piece_y p),
      (piece_x p, piece_y p + 2), (piece_x p + 2, piece_y p + 2)} \<and>
   (wf_grid (grid g) \<longrightarrow>
      (\<exists>nf nb. count_filled g (get_front_corners p) = Inr nf \<and>
               count_filled g (get_back_corners p) = Inr nb \<and>
               count_filled g (t_corners p) = Inr (nf + nb)))"
proof (intro conjI impI)
  show "length (get_front_corners p) = 2" "length (get_back_corners p) = 2"
    by (simp_all add: get_front_corners_def get_back_corners_def)
  show "set (get_front_corners p) \<inter> set (get_back_corners p) = {}"
    using front_back_partition by blast
  show c: "set (t_corners p) =
     {(piece_x p, piece_y p), (piece_x p + 2, piece_y p),
      (piece_x p, piece_y p + 2), (piece_x p + 2, piece_y p + 2)}"
    by (simp add: t_corners_eq)
  show "set (get_front_corners p) \<union> set (get_back_corners p) =
     {(piece_x p, piece_y p), (piece_x p + 2, piece_y p),
      (piece_x p, piece_y p + 2), (piece_x p + 2, piece_y p + 2)}"
    using front_back_partition c by metis
next
  assume w: "wf_grid (grid g)"
  show "\<exists>nf nb. count_filled g (get_front_corners p) = Inr nf \<and>
               count_filled g (get_back_corners p) = Inr nb \<and>
               count_filled g (t_corners p) = Inr (nf + nb)"
    by (simp add: count_filled_wf [OF w] front_back_count)
qed

text \<open>A T piece pointing down in the slot at the left wall: one of its two front (upper)
  corners is filled, and both back corners.\<close>

theorem corners_split_front_back_witness:
  "wf_grid t_slot_board \<and>
   count_filled (demo_game t_slot_board (t_piece 0 17 2) True)
      (get_front_corners (t_piece 0 17 2)) = Inr 1 \<and>
   count_filled (demo_game t_slot_board (t_piece 0 17 2) True)
      (get_back_corners (t_piece 0 17 2)) = Inr 2 \<and>
   count_filled (demo_game t_slot_board (t_piece 0 17 2) True)
      (t_corners (t_piece 0 17 2)) = Inr 3"
proof -
  have w: "wf_grid (grid (demo_game t_slot_board (t_piece 0 17 2) True))"
    by (simp add: grid_demo_game wf_t_slot_board)
  from corners_split_front_back [of "t_piece 0 17 2"
      "demo_game t_slot_board (t_piece 0 17 2) True"] w
  obtain nf nb where
    "count_filled (demo_game t_slot_board (t_piece 0 17 2) True)
       (get_front_corners (t_piece 0 17 2)) = Inr nf"
    "count_filled (demo_game t_slot_board (t_piece 0 17 2) True)
       (get_back_corners (t_piece 0 17 2)) = Inr nb"
    "count_filled (demo_game t_slot_board (t_piece 0 17 2) True)
       (t_corners (t_piece 0 17 2)) = Inr (nf + nb)"
    by blast
  moreover have "count_filled (demo_game t_slot_board (t_piece 0 17 2) True)
       (get_front_corners (t_piece 0 17 2)) = Inr 1"
    unfolding count_filled_wf [OF w]
    by (simp add: grid_demo_game get_front_corners_def t_piece_simps filled_t_slot_board)
  moreover have "count_filled (demo_game t_slot_board (t_piece 0 17 2) True)
       (get_back_corners (t_piece 0 17 2)) = Inr 2"
    unfolding count_filled_wf [OF w]
    by (simp add: grid_demo_game get_back_corners_def t_piece_simps filled_t_slot_board)
  ultimately show ?thesis
    using wf_t_slot_board by simp
qed

section \<open>Spin classification\<close>

text \<open>
  Claim C1.  With a current piece on a board with \<open>height\<close> rows of \<open>width\<close> cells,
  \<open>check_t_spin\<close> returns \<open>False\<close> unless the piece is the T shape and the last move was a
  rotation.  Otherwise it counts the filled cells (cells outside the board count as
  filled) among the four diagonal neighbours of the centre of the 3 by 3 box: with
  fewer than three it returns \<open>False\<close>; with three or four it returns \<open>"mini"\<close> when both
  front corners of the rotation state are filled and \<open>"normal"\<close> when fewer than two are.
\<close>

theorem check_t_spin_classifies:
  assumes "wf_grid (grid g)" and "current_piece g = Some a"
  shows "check_t_spin g =
     Inr (if shape_name (heap g a) = ''T'' \<and> last_move_was_rotation g then
            (if 3 \<le> length (filter (filled (grid g))
                        [(piece_x (heap g a), piece_y (heap g a)),
                         (piece_x (heap g a) + 2, piece_y (heap g a)),
                         (piece_x (heap g a), piece_y (heap g a) + 2),
                         (piece_x (heap g a) + 2, piece_y (heap g a) + 2)])
             then (if 2 \<le> length (filter (filled (grid g)) (get_front_corners (heap g a)))
                   then SpinMini else SpinNormal)
             else SpinFalse)
          else SpinFalse)"
proof -
  have c: "count_filled g cs = Inr (length (filter (filled (grid g)) cs))" for cs
    using assms(1) by (rule count_filled_wf)
  show ?thesis
    unfolding check_t_spin_def c
    using assms(2) by (simp add: t_corners_eq)
qed

text \<open>In the slot at the left wall, three corners are filled.  Pointing up, the piece has
  both front (lower) corners filled: \<open>"mini"\<close>; pointing down only one: \<open>"normal"\<close>.
  In the open, no corner is filled; and without a rotation there is no spin.\<close>

theorem check_t_spin_classifies_witness:
  "check_t_spin (demo_game t_slot_board (t_piece 0 17 0) True) = Inr SpinMini \<and>
   check_t_spin (demo_game t_slot_board (t_piece 0 17 2) True) = Inr SpinNormal \<and>
   check_t_spin (demo_game t_slot_board (t_piece 3 5 0) True) = Inr SpinFalse \<and>
   check_t_spin (demo_game t_slot_board (t_piece 0 17 0) False) = Inr SpinFalse"
  using check_t_spin_classifies [of "demo_game t_slot_board (t_piece 0 17 0) True" 0]
    check_t_spin_classifies [of "demo_game t_slot_board (t_piece 0 17 2) True" 0]
    check_t_spin_classifies [of "demo_game t_slot_board (t_piece 3 5 0) True" 0]
    check_t_spin_classifies [of "demo_game t_slot_board (t_piece 0 17 0) False" 0]
    wf_t_slot_board
  by (simp add: grid_demo_game demo_game_simps t_piece_simps get_front_corners_def
        filled_t_slot_board)

section \<open>The rows to clear\<close>

lemma row_all_nonzero_wf:
  assumes "wf_grid G" and "0 \<le> r" and "r < height G"
  shows "list_all (\<lambda>c. 0 \<le> c \<and> c < width G) cols \<Longrightarrow>
     row_all_nonzero (cells G) r cols = Inr (list_all (\<lambda>c. cells G ! nat r ! nat c \<noteq> Num 0) cols)"
proof (induction cols)
  case Nil
  show ?case by simp
next
  case (Cons c cols)
  then have "in_board G c r"
    using assms by (simp add: in_board_def)
  then have "cell_at (cells G) r c = Inr (cells G ! nat r ! nat c)"
    using assms(1) by (simp add: cell_at_in_board)
  with Cons show ?case by simp
qed

lemma row_all_nonzero_full_row:
  assumes "wf_grid G" and "0 \<le> r" and "r < height G"
  shows "row_all_nonzero (cells G) r [0 .. width G - 1] = Inr (full_row G r)"
  unfolding full_row_def
  by (rule row_all_nonzero_wf [OF assms]) (simp add: list_all_iff)

lemma scan_rows_wf:
  assumes "wf_grid G"
  shows "list_all (\<lambda>r. 0 \<le> r \<and> r < height G) rows \<Longrightarrow>
     scan_rows G rows = Inr (filter (full_row G) rows)"
  by (induction rows) (simp_all add: row_all_nonzero_full_row [OF assms])

lemma lines_to_clear_wf:
  "wf_grid G \<Longrightarrow> lines_to_clear G = Inr (filter (full_row G) (rev [0 .. height G - 1]))"
  unfolding lines_to_clear_def
  by (rule scan_rows_wf) (simp_all add: list_all_iff)

lemma decreasing_rows: "sorted_wrt (>) (filter P (rev [0 .. n]))"
  by (simp add: sorted_wrt_filter sorted_wrt_rev)


lemma check_t_spin_returns:
  assumes "wf_grid (grid g)" and "current_piece g = Some a"
  shows "\<exists>t. check_t_spin g = Inr t"
proof -
  have c: "count_filled g cs = Inr (length (filter (filled (grid g)) cs))" for cs
    using assms(1) by (rule count_filled_wf)
  show ?thesis
    unfolding check_t_spin_def c
    using assms(2) by simp
qed

lemma lines_to_clear_set:
  assumes "wf_grid G" and "lines_to_clear G = Inr rows"
  shows "set rows = {r. 0 \<le> r \<and> r < height G \<and> full_row G r}" and "sorted_wrt (>) rows"
proof -
  from assms have r: "rows = filter (full_row G) (rev [0 .. height G - 1])"
    by (simp add: lines_to_clear_wf)
  show "set rows = {r. 0 \<le> r \<and> r < height G \<and> full_row G r}"
    unfolding r by auto
  show "sorted_wrt (>) rows"
    unfolding r by (rule decreasing_rows)
qed

lemma demo_env_simps:
  "grid_lock_piece demo_env = demo_lock_piece"
  "grid_is_collision demo_env = demo_is_collision"
  "tet_new demo_env = demo_new"
  "tet_is_touching_ground demo_env = demo_is_touching_ground"
  by (simp_all add: demo_env_def)

lemma wf_gap_board: "wf_grid gap_board"
  by code_simp

lemma wf_gap_board_locked: "wf_grid (demo_lock_piece gap_board (t_piece 0 17 0))"
  by code_simp

lemma lines_gap_board: "lines_to_clear gap_board = Inr [19]"
  by code_simp

lemma lines_gap_board_locked:
  "lines_to_clear (demo_lock_piece gap_board (t_piece 0 17 0)) = Inr [19, 18]"
  by code_simp

text \<open>
  Claim C4.  In the lock step, on a board that has \<open>height\<close> rows of \<open>width\<close> cells before
  and after the lock, the rows to clear are listed on the locked board while no row has
  been removed yet (the state handed on carries the locked board as it is).  The list
  holds exactly the rows \<open>y\<close> with \<open>0 \<le> y < height\<close> all of whose cells are not \<open>0\<close>, from
  the bottom up: its row indices strictly decrease.
\<close>

theorem lines_to_clear_post_lock:
  assumes "wf_grid (grid g)" and "current_piece g = Some a"
    and "wf_grid (grid_lock_piece E (grid g) (heap g a))"
  shows "\<exists>t rows.
     lock_and_list E was_rotation a g =
       Inr (t, rows, g\<lparr>grid := grid_lock_piece E (grid g) (heap g a)\<rparr>) \<and>
     lines_to_clear (grid_lock_piece E (grid g) (heap g a)) = Inr rows \<and>
     set rows = {r. 0 \<le> r \<and> r < height (grid_lock_piece E (grid g) (heap g a))
                   \<and> full_row (grid_lock_piece E (grid g) (heap g a)) r} \<and>
     sorted_wrt (>) rows"
proof -
  obtain t where t: "check_t_spin g = Inr t"
    using check_t_spin_returns [OF assms(1,2)] by blast
  obtain rows where rows: "lines_to_clear (grid_lock_piece E (grid g) (heap g a)) = Inr rows"
    using lines_to_clear_wf [OF assms(3)] by blast
  have "lock_and_list E was_rotation a g =
       Inr (if was_rotation then t else SpinFalse, rows,
            g\<lparr>grid := grid_lock_piece E (grid g) (heap g a)\<rparr>)"
    by (simp add: lock_and_list_def t rows)
  with rows lines_to_clear_set [OF assms(3) rows] show ?thesis
    by blast
qed

text \<open>Before the lock only the bottom row of the board is full; the T piece fills the gap
  of the row above, and both rows are listed, the lower one first.\<close>

theorem lines_to_clear_post_lock_witness:
  "lines_to_clear gap_board = Inr [19] \<and>
   (\<exists>t. lock_and_list demo_env True 0 (demo_game gap_board (t_piece 0 17 0) True) =
          Inr (t, [19, 18],
               (demo_game gap_board (t_piece 0 17 0) True)
                 \<lparr>grid := demo_lock_piece gap_board (t_piece 0 17 0)\<rparr>))"
proof -
  have "wf_grid (grid (demo_game gap_board (t_piece 0 17 0) True))"
    and "current_piece (demo_game gap_board (t_piece 0 17 0) True) = Some 0"
    and "wf_grid (grid_lock_piece demo_env (grid (demo_game gap_board (t_piece 0 17 0) True))
           (heap (demo_game gap_board (t_piece 0 17 0) True) 0))"
    by (simp_all add: grid_demo_game demo_game_simps demo_env_simps wf_gap_board
          wf_gap_board_locked)
  from lines_to_clear_post_lock [OF this, of True]
  show ?thesis
    by (auto simp: grid_demo_game demo_game_simps demo_env_simps lines_gap_board
          lines_gap_board_locked)
qed

section \<open>The lock delay\<close>

text \<open>
  Claim C2.  Take a piece whose lock delay is active and for which, once the elapsed time
  of the tick is added, the timer has reached \<open>LOCK_DELAY\<close> or the move count has reached
  \<open>MAX_LOCK_MOVES\<close>.  If the piece touches the ground at that moment it becomes locked
  (with the advanced timer).  Otherwise the lock delay is switched off, the move count
  and the timer are set to 0, and the step leaves \<open>is_locked\<close> as it was: the step never
  marks as locked a piece that does not touch the ground.
\<close>

theorem lock_delay_expiry:
  assumes "lock_delay_active (heap g a)"
    and "lock_delay_timer (heap g a) + delta_time \<ge> LOCK_DELAY E
         \<or> lock_moves_count (heap g a) \<ge> MAX_LOCK_MOVES E"
  shows "heap (lock_delay_step E delta_time a g) a =
      (if tet_is_touching_ground E (grid g)
            ((heap g a)\<lparr>lock_delay_timer := lock_delay_timer (heap g a) + delta_time\<rparr>)
       then (heap g a)\<lparr>lock_delay_timer := lock_delay_timer (heap g a) + delta_time,
                       is_locked := True\<rparr>
       else (heap g a)\<lparr>lock_delay_active := False, lock_moves_count := 0,
                       lock_delay_timer := 0\<rparr>) \<and>
     (if tet_is_touching_ground E (grid g)
            ((heap g a)\<lparr>lock_delay_timer := lock_delay_timer (heap g a) + delta_time\<rparr>)
      then is_locked (heap (lock_delay_step E delta_time a g) a)
      else is_locked (heap (lock_delay_step E delta_time a g) a) = is_locked (heap g a))"
  using assms
  by (auto simp: lock_delay_step_def lock_delay_piece_def set_piece_def Let_def)

text \<open>A T piece resting on the stack locks after 600 ms; a T piece in the air with 400 ms
  on its timer goes back to the state without lock delay after 200 ms more.\<close>

theorem lock_delay_expiry_witness:
  "heap (lock_delay_step demo_env 600 0 resting_game) 0 =
     (t_piece 0 15 2)\<lparr>lock_delay_active := True, lock_delay_timer := 600, is_locked := True\<rparr> \<and>
   heap (lock_delay_step demo_env 200 0 floating_game) 0 = t_piece 0 10 2"
proof -
  have r1: "lock_delay_active (heap resting_game 0)"
    and r2: "lock_delay_timer (heap resting_game 0) + 600 \<ge> LOCK_DELAY demo_env
             \<or> lock_moves_count (heap resting_game 0) \<ge> MAX_LOCK_MOVES demo_env"
    and r3: "tet_is_touching_ground demo_env (grid resting_game)
               ((heap resting_game 0)
                  \<lparr>lock_delay_timer := lock_delay_timer (heap resting_game 0) + 600\<rparr>)"
    and r4: "(heap resting_game 0)
               \<lparr>lock_delay_timer := lock_delay_timer (heap resting_game 0) + 600,
                is_locked := True\<rparr> =
             (t_piece 0 15 2)\<lparr>lock_delay_active := True, lock_delay_timer := 600,
                               is_locked := True\<rparr>"
    by code_simp+
  have f1: "lock_delay_active (heap floating_game 0)"
    and f2: "lock_delay_timer (heap floating_game 0) + 200 \<ge> LOCK_DELAY demo_env
             \<or> lock_moves_count (heap floating_game 0) \<ge> MAX_LOCK_MOVES demo_env"
    and f3: "\<not> tet_is_touching_ground demo_env (grid floating_game)
               ((heap floating_game 0)
                  \<lparr>lock_delay_timer := lock_delay_timer (heap floating_game 0) + 200\<rparr>)"
    and f4: "(heap floating_game 0)
               \<lparr>lock_delay_active := False, lock_moves_count := 0, lock_delay_timer := 0\<rparr> =
             t_piece 0 10 2"
    by code_simp+
  from lock_delay_expiry [OF r1 r2] r3 r4 lock_delay_expiry [OF f1 f2] f3 f4
  show ?thesis
    by simp
qed

section \<open>Gravity\<close>

lemma gravity_step_eq:
  "gravity_step E a g =
     (if drop_timer g > drop_speed g then
        g\<lparr>heap := (heap g)(a := snd (tet_move E (grid g) (heap g a) 0 1)),
          drop_timer := 0, drop_height := drop_height g + 1\<rparr>
      else g)"
  by (simp add: gravity_step_def set_piece_def)

lemma update_plain_frame:
  assumes "current_screen g = ''game''" and "start_timer g = None"
    and "\<not> game_over g" and "\<not> is_paused g" and "mode g \<noteq> ''AI''"
    and "current_piece g = Some a"
  shows "update E now g =
     (let g1 = advance_clock now (g\<lparr>ui := particles_update E (ui g)\<rparr>);
          g2 = lock_delay_step E (now - last_update_time g) a
                 (gravity_step E a
                    (set_piece a (tet_update_position E (grid g1) (heap g1 a)) g1))
      in if is_locked (heap g2 a) then
           (case lock_and_clear E (last_move_was_rotation g) a g2 of
              Inl e \<Rightarrow> Some (Inl e)
            | Inr g3 \<Rightarrow> Some (Inr (finish_frame E g3)))
         else Some (Inr (finish_frame E g2)))"
  using assms
  by (simp add: update_def update_game_def piece_frame_def ai_step_def Let_def
        advance_clock_def set_piece_def split: sum.splits)


lemma heap_finish_frame: "heap (finish_frame E g) = heap g"
  and drop_timer_finish_frame: "drop_timer (finish_frame E g) = drop_timer g"
  and drop_height_finish_frame: "drop_height (finish_frame E g) = drop_height g"
  by (simp_all add: finish_frame_def Let_def split: option.splits)

text \<open>
  Claim C7.  The gravity step of a tick: when the drop timer (with the elapsed time of
  the tick added by the clock) exceeds the drop speed, the current piece receives one
  call \<open>move(0, 1)\<close>, the drop timer becomes 0 and the drop height grows by one; when it
  does not, the step changes nothing.  Seen from \<open>update\<close>, for a tick of the game screen
  outside autoplay in which the piece does not lock: the piece after the tick is the
  piece after \<open>update_position\<close>, at most that one move down and the lock-delay step, and
  the two counters are as stated.
\<close>

theorem gravity_one_move_per_tick:
  "gravity_step E a g =
     (if drop_timer g > drop_speed g then
        g\<lparr>heap := (heap g)(a := snd (tet_move E (grid g) (heap g a) 0 1)),
          drop_timer := 0, drop_height := drop_height g + 1\<rparr>
      else g) \<and>
   (current_screen g = ''game'' \<and> start_timer g = None \<and> \<not> game_over g \<and> \<not> is_paused g
      \<and> mode g \<noteq> ''AI'' \<and> current_piece g = Some a
      \<and> \<not> is_locked (lock_delay_piece E (grid g) (now - last_update_time g)
            (if drop_timer g + (now - last_update_time g) > drop_speed g
             then snd (tet_move E (grid g) (tet_update_position E (grid g) (heap g a)) 0 1)
             else tet_update_position E (grid g) (heap g a)))
    \<longrightarrow> (\<exists>g'. update E now g = Some (Inr g') \<and>
          heap g' a = lock_delay_piece E (grid g) (now - last_update_time g)
            (if drop_timer g + (now - last_update_time g) > drop_speed g
             then snd (tet_move E (grid g) (tet_update_position E (grid g) (heap g a)) 0 1)
             else tet_update_position E (grid g) (heap g a)) \<and>
          drop_timer g' =
            (if drop_timer g + (now - last_update_time g) > drop_speed g then 0
             else drop_timer g + (now - last_update_time g)) \<and>
          drop_height g' =
            (if drop_timer g + (now - last_update_time g) > drop_speed g
             then drop_height g + 1 else drop_height g)))"
proof (intro conjI impI)
  show "gravity_step E a g =
     (if drop_timer g > drop_speed g then
        g\<lparr>heap := (heap g)(a := snd (tet_move E (grid g) (heap g a) 0 1)),
          drop_timer := 0, drop_height := drop_height g + 1\<rparr>
      else g)"
    by (rule gravity_step_eq)
next
  assume h: "current_screen g = ''game'' \<and> start_timer g = None \<and> \<not> game_over g \<and> \<not> is_paused g
      \<and> mode g \<noteq> ''AI'' \<and> current_piece g = Some a
      \<and> \<not> is_locked (lock_delay_piece E (grid g) (now - last_update_time g)
            (if drop_timer g + (now - last_update_time g) > drop_speed g
             then snd (tet_move E (grid g) (tet_update_position E (grid g) (heap g a)) 0 1)
             else tet_update_position E (grid g) (heap g a)))"
  then have u: "update E now g =
     (let g1 = advance_clock now (g\<lparr>ui := particles_update E (ui g)\<rparr>);
          g2 = lock_delay_step E (now - last_update_time g) a
                 (gravity_step E a
                    (set_piece a (tet_update_position E (grid g1) (heap g1 a)) g1))
      in if is_locked (heap g2 a) then
           (case lock_and_clear E (last_move_was_rotation g) a g2 of
              Inl e \<Rightarrow> Some (Inl e)
            | Inr g3 \<Rightarrow> Some (Inr (finish_frame E g3)))
         else Some (Inr (finish_frame E g2)))"
    by (simp add: update_plain_frame)
  from h show "\<exists>g'. update E now g = Some (Inr g') \<and>
          heap g' a = lock_delay_piece E (grid g) (now - last_update_time g)
            (if drop_timer g + (now - last_update_time g) > drop_speed g
             then snd (tet_move E (grid g) (tet_update_position E (grid g) (heap g a)) 0 1)
             else tet_update_position E (grid g) (heap g a)) \<and>
          drop_timer g' =
            (if drop_timer g + (now - last_update_time g) > drop_speed g then 0
             else drop_timer g + (now - last_update_time g)) \<and>
          drop_height g' =
            (if drop_timer g + (now - last_update_time g) > drop_speed g
             then drop_height g + 1 else drop_height g)"
    unfolding u
    by (simp add: Let_def heap_finish_frame drop_timer_finish_frame drop_height_finish_frame
          lock_delay_step_def gravity_step_eq set_piece_def advance_clock_def
          split: if_splits)
qed

text \<open>A falling T piece, drop speed 1000 ms: after 1200 ms it is one row lower, after
  400 ms it has not moved.\<close>

theorem gravity_one_move_per_tick_witness:
  "(\<exists>g'. update demo_env 1200 falling_game = Some (Inr g') \<and>
         heap g' 0 = t_piece 3 6 0 \<and> drop_timer g' = 0 \<and> drop_height g' = 1) \<and>
   (\<exists>g'. update demo_env 400 falling_game = Some (Inr g') \<and>
         heap g' 0 = t_piece 3 5 0 \<and> drop_timer g' = 400 \<and> drop_height g' = 0)"
proof -
  have h: "current_screen falling_game = ''game''" "start_timer falling_game = None"
    "\<not> game_over falling_game" "\<not> is_paused falling_game" "mode falling_game \<noteq> ''AI''"
    "current_piece falling_game = Some 0"
    by (simp_all add: falling_game_def demo_game_def)
  have v: "drop_timer falling_game = 0" "last_update_time falling_game = 0"
    "drop_speed falling_game = 1000" "drop_height falling_game = 0"
    by (simp_all add: falling_game_def demo_game_def)
  have a: "lock_delay_piece demo_env (grid falling_game) 1200
             (snd (tet_move demo_env (grid falling_game)
                (tet_update_position demo_env (grid falling_game) (heap falling_game 0)) 0 1))
           = t_piece 3 6 0"
    by code_simp
  have b: "lock_delay_piece demo_env (grid falling_game) 400
             (tet_update_position demo_env (grid falling_game) (heap falling_game 0))
           = t_piece 3 5 0"
    by code_simp
  have c: "\<not> is_locked (t_piece 3 6 0)" "\<not> is_locked (t_piece 3 5 0)"
    by (simp_all add: t_piece_def demo_new_def)
  from gravity_one_move_per_tick [of demo_env 0 falling_game 1200]
    gravity_one_move_per_tick [of demo_env 0 falling_game 400]
  show ?thesis
    by (simp add: h v a b c)
qed

section \<open>The lock step as a whole\<close>

lemma row_particles_returns:
  assumes "wf_grid G" and "0 \<le> r" and "r < height G"
  shows "list_all (\<lambda>c. 0 \<le> c \<and> c < width G) cols \<Longrightarrow> \<exists>v. row_particles E G r cols u = Inr v"
proof (induction cols arbitrary: u)
  case Nil
  show ?case by simp
next
  case (Cons c cols)
  then have "in_board G c r"
    using assms by (simp add: in_board_def)
  then have "cell_at (cells G) r c = Inr (cells G ! nat r ! nat c)"
    using assms(1) by (simp add: cell_at_in_board)
  with Cons show ?case by (simp add: Let_def)
qed

lemma rows_particles_returns:
  assumes "wf_grid G"
  shows "list_all (\<lambda>r. 0 \<le> r \<and> r < height G) rows \<Longrightarrow> \<exists>v. rows_particles E G rows u = Inr v"
proof (induction rows arbitrary: u)
  case Nil
  show ?case by simp
next
  case (Cons r rows)
  then obtain v where "row_particles E G r [0 .. width G - 1] u = Inr v"
    using row_particles_returns [OF assms, of r "[0 .. width G - 1]" E u]
    by (auto simp: list_all_iff)
  with Cons show ?case by simp
qed

lemma lines_to_clear_in_range:
  assumes "wf_grid G" and "lines_to_clear G = Inr rows"
  shows "list_all (\<lambda>r. 0 \<le> r \<and> r < height G) rows"
  using lines_to_clear_set(1) [OF assms] by (simp add: list_all_iff)

lemma clear_listed_returns:
  assumes "wf_grid (grid g)" and "lines_to_clear (grid g) = Inr rows"
  shows "\<exists>u. clear_listed E rows g =
           Inr (if rows \<noteq> [] then g\<lparr>ui := u, grid := grid_clear_lines E (grid g)\<rparr> else g)"
proof -
  obtain v where "rows_particles E (grid g) rows (ui g) = Inr v"
    using rows_particles_returns [OF assms(1) lines_to_clear_in_range [OF assms],
        where E = E and u = "ui g"]
    by blast
  then show ?thesis
    by (auto simp: clear_listed_def create_line_clear_particles_def)
qed

lemma lock_and_list_returns:
  assumes "wf_grid (grid g)" and "current_piece g = Some a"
    and "lines_to_clear (grid_lock_piece E (grid g) (heap g a)) = Inr rows"
  shows "\<exists>t. (if wr then check_t_spin g = Inr t else t = SpinFalse) \<and>
     lock_and_list E wr a g = Inr (t, rows, g\<lparr>grid := grid_lock_piece E (grid g) (heap g a)\<rparr>)"
proof -
  obtain t where t: "check_t_spin g = Inr t"
    using check_t_spin_returns [OF assms(1,2)] by blast
  show ?thesis
    by (cases wr) (simp_all add: lock_and_list_def t assms(3))
qed

text \<open>The state after the lock step, when the pieces of the step return.\<close>

lemma lock_and_clear_returns:
  assumes "wf_grid (grid g)" and "current_piece g = Some a"
    and "wf_grid (grid_lock_piece E (grid g) (heap g a))"
    and "lines_to_clear (grid_lock_piece E (grid g) (heap g a)) = Inr rows"
  shows "\<exists>t u. (if wr then check_t_spin g = Inr t else t = SpinFalse) \<and>
     lock_and_clear E wr a g =
       Inr (spawn_after_lock E (board_clear_bonus E (level_and_speed E (length rows)
              (score_and_reset E (length rows) t
                 (if rows \<noteq> [] then
                    g\<lparr>ui := u, grid := grid_clear_lines E (grid_lock_piece E (grid g) (heap g a))\<rparr>
                  else g\<lparr>grid := grid_lock_piece E (grid g) (heap g a)\<rparr>)))))"
proof -
  obtain t where t: "if wr then check_t_spin g = Inr t else t = SpinFalse"
    and l: "lock_and_list E wr a g =
              Inr (t, rows, g\<lparr>grid := grid_lock_piece E (grid g) (heap g a)\<rparr>)"
    using lock_and_list_returns [OF assms(1,2,4)] by blast
  obtain u where c: "clear_listed E rows (g\<lparr>grid := grid_lock_piece E (grid g) (heap g a)\<rparr>) =
      Inr (if rows \<noteq> [] then
             g\<lparr>ui := u, grid := grid_clear_lines E (grid_lock_piece E (grid g) (heap g a))\<rparr>
           else g\<lparr>grid := grid_lock_piece E (grid g) (heap g a)\<rparr>)"
    using clear_listed_returns [of "g\<lparr>grid := grid_lock_piece E (grid g) (heap g a)\<rparr>" rows E]
      assms(3,4) by (cases "rows = []") auto
  show ?thesis
    using t by (auto simp: lock_and_clear_def l c)
qed

lemma spawn_after_lock_frame:
  "drop_speed (spawn_after_lock E g) = drop_speed g"
  "score (spawn_after_lock E g) = score g"
  by (simp_all add: spawn_after_lock_def draw_next_piece_def alloc_def check_high_score_def
        Let_def split: prod.splits)

lemma board_clear_bonus_frame:
  "drop_speed (board_clear_bonus E g) = drop_speed g"
  "score (board_clear_bonus E g) =
     (if grid_is_board_clear E (grid g) then snd (sc_add_tetris_clear_bonus E (score g))
      else score g)"
  by (simp_all add: board_clear_bonus_def)

lemma level_and_speed_fields:
  "drop_speed (level_and_speed E n g) =
     (if n > 0 then
        max (MIN_DROP_SPEED E)
            (INITIAL_DROP_SPEED E - (sc_level E (sc_update_level E (score g)) - 1) * SPEED_INCREMENT E)
      else drop_speed g)"
  "score (level_and_speed E n g) = (if n > 0 then sc_update_level E (score g) else score g)"
  "grid (level_and_speed E n g) = grid g"
  by (simp_all add: level_and_speed_def update_drop_speed_def)

lemma score_and_reset_fields:
  "drop_speed (score_and_reset E n t g) = drop_speed g"
  "score (score_and_reset E n t g) =
     snd (sc_update E (score g) n t False (drop_height g) (soft_drop_count g) (hard_drop_count g))"
  "grid (score_and_reset E n t g) = grid g"
  by (simp_all add: score_and_reset_def split: prod.splits)

lemma demo_score_keeps_level: "score_keeps_level demo_env"
  by (simp add: score_keeps_level_def demo_env_def demo_sc_update_def Let_def split: prod.splits)

lemma demo_env_score:
  "sc_level demo_env sc = fst (snd sc)"
  "sc_update demo_env = demo_sc_update"
  "sc_update_level demo_env = demo_sc_update_level"
  "MIN_DROP_SPEED demo_env = 100" "INITIAL_DROP_SPEED demo_env = 1000"
  "SPEED_INCREMENT demo_env = 50"
  by (simp_all add: demo_env_def)

section \<open>Level and drop speed\<close>

text \<open>
  Claim C6.  The lock step on a board with \<open>height\<close> rows of \<open>width\<close> cells returns, and
  with \<open>rows\<close> the rows it cleared: if there is at least one, the drop speed afterwards is
  \<open>max(MIN_DROP_SPEED, INITIAL_DROP_SPEED - (level - 1) * SPEED_INCREMENT)\<close> for the level
  that \<open>update_level\<close> leaves, applied to the score that \<open>Score.update\<close> left; if there is
  none, the drop speed is the one before the step.  When \<open>Score.update\<close> and the all-clear
  bonus keep the level, that level is the level of the final score in the first case,
  and the level before the step in the second.
\<close>

theorem drop_speed_after_lock:
  assumes "wf_grid (grid g)" and "current_piece g = Some a"
    and "wf_grid (grid_lock_piece E (grid g) (heap g a))"
  shows "\<exists>g' t rows.
     lock_and_clear E wr a g = Inr g' \<and>
     lines_to_clear (grid_lock_piece E (grid g) (heap g a)) = Inr rows \<and>
     (if wr then check_t_spin g = Inr t else t = SpinFalse) \<and>
     (if 0 < length rows then
        drop_speed g' =
          max (MIN_DROP_SPEED E)
            (INITIAL_DROP_SPEED E
               - (sc_level E (sc_update_level E
                    (snd (sc_update E (score g) (length rows) t False (drop_height g)
                            (soft_drop_count g) (hard_drop_count g)))) - 1)
                 * SPEED_INCREMENT E) \<and>
        (score_keeps_level E \<longrightarrow>
           drop_speed g' =
             max (MIN_DROP_SPEED E)
               (INITIAL_DROP_SPEED E - (sc_level E (score g') - 1) * SPEED_INCREMENT E))
      else
        drop_speed g' = drop_speed g \<and>
        (score_keeps_level E \<longrightarrow> sc_level E (score g') = sc_level E (score g)))"
proof -
  obtain rows where rows: "lines_to_clear (grid_lock_piece E (grid g) (heap g a)) = Inr rows"
    using lines_to_clear_wf [OF assms(3)] by blast
  obtain t u where t: "if wr then check_t_spin g = Inr t else t = SpinFalse"
    and r: "lock_and_clear E wr a g =
       Inr (spawn_after_lock E (board_clear_bonus E (level_and_speed E (length rows)
              (score_and_reset E (length rows) t
                 (if rows \<noteq> [] then
                    g\<lparr>ui := u, grid := grid_clear_lines E (grid_lock_piece E (grid g) (heap g a))\<rparr>
                  else g\<lparr>grid := grid_lock_piece E (grid g) (heap g a)\<rparr>)))))"
    using lock_and_clear_returns [OF assms rows] by blast
  show ?thesis
  proof (cases "rows = []")
    case True
    with r rows t show ?thesis
      by (auto simp: spawn_after_lock_frame board_clear_bonus_frame level_and_speed_fields
            score_and_reset_fields score_keeps_level_def)
  next
    case False
    with r rows t show ?thesis
      by (auto simp: spawn_after_lock_frame board_clear_bonus_frame level_and_speed_fields
            score_and_reset_fields score_keeps_level_def)
  qed
qed

text \<open>With nine lines cleared before, the two rows of this lock lift the level to 2 and
  the drop speed to 950 ms; the lock of a piece dropped beside the stack clears nothing
  and leaves level 1 and 1000 ms.\<close>

theorem drop_speed_after_lock_witness:
  "(\<exists>g'. lock_and_clear demo_env True 0 gap_game = Inr g' \<and> drop_speed g' = 950 \<and>
         fst (snd (score g')) = 2) \<and>
   (\<exists>g'. lock_and_clear demo_env False 0 last_game = Inr g' \<and> drop_speed g' = 1000 \<and>
         fst (snd (score g')) = 1)"
proof -
  have g: "wf_grid (grid gap_game)" "current_piece gap_game = Some 0"
    "wf_grid (grid_lock_piece demo_env (grid gap_game) (heap gap_game 0))"
    by code_simp+
  have gl: "lines_to_clear (grid_lock_piece demo_env (grid gap_game) (heap gap_game 0))
              = Inr [19, 18]"
    by code_simp
  have gv: "score gap_game = (0, 1, 9)" "drop_height gap_game = 0"
    "soft_drop_count gap_game = 0" "hard_drop_count gap_game = 0"
    by (simp_all add: gap_game_def demo_game_def)
  have t: "wf_grid (grid last_game)" "current_piece last_game = Some 0"
    "wf_grid (grid_lock_piece demo_env (grid last_game) (heap last_game 0))"
    by code_simp+
  have tl: "lines_to_clear (grid_lock_piece demo_env (grid last_game)
              (heap last_game 0)) = Inr []"
    by code_simp
  have tv: "score last_game = (0, 1, 0)" "drop_speed last_game = 1000"
    by (simp_all add: last_game_def topped_out_game_def demo_game_def)
  from drop_speed_after_lock [OF g, of True] drop_speed_after_lock [OF t, of False]
  show ?thesis
    by (auto simp: gl gv tl tv demo_score_keeps_level demo_env_score demo_sc_update_def
          demo_sc_update_level_def Let_def)
qed

section \<open>The hold slot\<close>

lemma hold_piece_first:
  assumes "current_piece g = Some a" and "held_piece g = None"
  shows "\<exists>g'. hold_piece E g = Inr g' \<and>
     held_piece g' = Some (next_ref g) \<and> current_piece g' = Some (Suc (next_ref g)) \<and>
     heap g' = (heap g)(next_ref g := tet_new E (shape_name (heap g a)) (grid g),
                        Suc (next_ref g) := fst (gen_get_next_piece E (piece_generator g) (grid g))) \<and>
     piece_generator g' =
       snd (gen_preview_next_pieces E (snd (gen_get_next_piece E (piece_generator g) (grid g)))) \<and>
     grid g' = grid g \<and> game_over g' = game_over g \<and> current_screen g' = current_screen g \<and>
     next_ref g' = Suc (Suc (next_ref g))"
  using assms
  by (simp add: hold_piece_def alloc_def draw_next_piece_def split: prod.splits)

lemma hold_piece_swap:
  assumes "current_piece g = Some a" and "held_piece g = Some h0"
  shows "\<exists>g'. hold_piece E g = Inr g' \<and>
     current_piece g' = Some (next_ref g) \<and> held_piece g' = Some (Suc (next_ref g)) \<and>
     heap g' = (heap g)(next_ref g :=
                          tet_reset_position E (grid g) (tet_new E (shape_name (heap g h0)) (grid g)),
                        Suc (next_ref g) := tet_new E (shape_name (heap g a)) (grid g)) \<and>
     piece_generator g' = piece_generator g \<and>
     grid g' = grid g \<and> game_over g' = game_over g \<and> current_screen g' = current_screen g \<and>
     next_ref g' = Suc (Suc (next_ref g))"
  using assms
  by (simp add: hold_piece_def alloc_def set_piece_def Let_def split: prod.splits)

text \<open>
  Claim C9.  \<open>hold_piece\<close> with a current piece \<open>a\<close>, in a game whose references point to
  existing objects.  With an empty slot the slot receives a piece newly constructed from
  the shape name of \<open>a\<close>, and the current piece becomes the next piece of the generator.
  With a piece in the slot the current piece becomes a piece newly constructed from the
  held shape name, its position reset, and the slot receives a piece newly constructed
  from the shape name of \<open>a\<close>.  In both cases the held piece is an object that did not
  exist before the call, different from \<open>a\<close> and from the new current piece; the objects
  that existed before are unchanged; and writing any value to the current piece leaves
  the held piece as it is.
\<close>

theorem hold_piece_fresh_copy:
  assumes "current_piece g = Some a" and "refs_allocated g"
  shows "\<exists>g' h c.
     hold_piece E g = Inr g' \<and> held_piece g' = Some h \<and> current_piece g' = Some c \<and>
     h \<noteq> c \<and> h \<noteq> a \<and> next_ref g \<le> h \<and> next_ref g \<le> c \<and>
     heap g' h = tet_new E (shape_name (heap g a)) (grid g) \<and>
     heap g' c =
       (case held_piece g of
          None \<Rightarrow> fst (gen_get_next_piece E (piece_generator g) (grid g))
        | Some h0 \<Rightarrow>
            tet_reset_position E (grid g) (tet_new E (shape_name (heap g h0)) (grid g))) \<and>
     piece_generator g' =
       (case held_piece g of
          None \<Rightarrow> snd (gen_preview_next_pieces E
                         (snd (gen_get_next_piece E (piece_generator g) (grid g))))
        | Some h0 \<Rightarrow> piece_generator g) \<and>
     (\<forall>r. r < next_ref g \<longrightarrow> heap g' r = heap g r) \<and>
     (\<forall>p. heap (set_piece c p g') h = heap g' h)"
proof (cases "held_piece g")
  case None
  from assms have a: "a < next_ref g"
    by (simp add: refs_allocated_def)
  from hold_piece_first [OF assms(1) None, of E] obtain g' where
    "hold_piece E g = Inr g'" "held_piece g' = Some (next_ref g)"
    "current_piece g' = Some (Suc (next_ref g))"
    "heap g' = (heap g)(next_ref g := tet_new E (shape_name (heap g a)) (grid g),
                        Suc (next_ref g) := fst (gen_get_next_piece E (piece_generator g) (grid g)))"
    "piece_generator g' =
       snd (gen_preview_next_pieces E (snd (gen_get_next_piece E (piece_generator g) (grid g))))"
    by blast
  with a None show ?thesis
    by (simp add: set_piece_def)
next
  case (Some h0)
  from assms have a: "a < next_ref g"
    by (simp add: refs_allocated_def)
  from hold_piece_swap [OF assms(1) Some, of E] obtain g' where
    "hold_piece E g = Inr g'" "current_piece g' = Some (next_ref g)"
    "held_piece g' = Some (Suc (next_ref g))"
    "heap g' = (heap g)(next_ref g :=
                          tet_reset_position E (grid g) (tet_new E (shape_name (heap g h0)) (grid g)),
                        Suc (next_ref g) := tet_new E (shape_name (heap g a)) (grid g))"
    "piece_generator g' = piece_generator g"
    by blast
  with a Some show ?thesis
    by (simp add: set_piece_def)
qed

text \<open>Holding the falling T piece with an empty slot draws the O piece; with an I piece in
  the slot the I piece comes back at its spawn position.  Either way the slot holds a new
  T piece, which a later change of the current piece does not touch.\<close>

theorem hold_piece_fresh_copy_witness:
  "refs_allocated falling_game \<and> refs_allocated holding_game \<and>
   (\<exists>g' h c. hold_piece demo_env falling_game = Inr g' \<and> held_piece g' = Some h \<and>
       current_piece g' = Some c \<and> h \<noteq> c \<and> h \<noteq> 0 \<and>
       heap g' h = demo_new ''T'' two_full_rows \<and> heap g' c = demo_new ''O'' two_full_rows \<and>
       heap (set_piece c (t_piece 3 9 1) g') h = demo_new ''T'' two_full_rows) \<and>
   (\<exists>g' h c. hold_piece demo_env holding_game = Inr g' \<and> held_piece g' = Some h \<and>
       current_piece g' = Some c \<and> h \<noteq> c \<and> h \<noteq> 0 \<and>
       heap g' h = demo_new ''T'' two_full_rows \<and> heap g' c = demo_new ''I'' two_full_rows \<and>
       heap (set_piece c (t_piece 3 9 1) g') h = demo_new ''T'' two_full_rows)"
proof -
  have f: "current_piece falling_game = Some 0" "refs_allocated falling_game"
    by (simp_all add: falling_game_def demo_game_def refs_allocated_def)
  have h: "current_piece holding_game = Some 0" "refs_allocated holding_game"
    by (simp_all add: holding_game_def falling_game_def demo_game_def refs_allocated_def)
  have fv: "held_piece falling_game = None"
    "tet_new demo_env (shape_name (heap falling_game 0)) (grid falling_game)
       = demo_new ''T'' two_full_rows"
    "fst (gen_get_next_piece demo_env (piece_generator falling_game) (grid falling_game))
       = demo_new ''O'' two_full_rows"
    by (simp_all add: falling_game_def demo_game_def demo_env_def t_piece_simps
          demo_get_next_piece_def)
  have hv: "held_piece holding_game = Some 1"
    "tet_new demo_env (shape_name (heap holding_game 0)) (grid holding_game)
       = demo_new ''T'' two_full_rows"
    "tet_reset_position demo_env (grid holding_game)
       (tet_new demo_env (shape_name (heap holding_game (Suc 0))) (grid holding_game))
       = demo_new ''I'' two_full_rows"
    by (simp_all add: holding_game_def falling_game_def demo_game_def demo_env_def
          t_piece_simps demo_reset_position_def demo_new_def)
  from hold_piece_fresh_copy [OF f, of demo_env] obtain g1 h1 c1 where
    1: "hold_piece demo_env falling_game = Inr g1" "held_piece g1 = Some h1"
      "current_piece g1 = Some c1" "h1 \<noteq> c1" "h1 \<noteq> 0"
      "heap g1 h1 = tet_new demo_env (shape_name (heap falling_game 0)) (grid falling_game)"
      "heap g1 c1 =
         (case held_piece falling_game of
            None \<Rightarrow> fst (gen_get_next_piece demo_env (piece_generator falling_game)
                           (grid falling_game))
          | Some h0 \<Rightarrow>
              tet_reset_position demo_env (grid falling_game)
                (tet_new demo_env (shape_name (heap falling_game h0)) (grid falling_game)))"
      "\<forall>p. heap (set_piece c1 p g1) h1 = heap g1 h1"
    by blast
  from hold_piece_fresh_copy [OF h, of demo_env] obtain g2 h2 c2 where
    2: "hold_piece demo_env holding_game = Inr g2" "held_piece g2 = Some h2"
      "current_piece g2 = Some c2" "h2 \<noteq> c2" "h2 \<noteq> 0"
      "heap g2 h2 = tet_new demo_env (shape_name (heap holding_game 0)) (grid holding_game)"
      "heap g2 c2 =
         (case held_piece holding_game of
            None \<Rightarrow> fst (gen_get_next_piece demo_env (piece_generator holding_game)
                           (grid holding_game))
          | Some h0 \<Rightarrow>
              tet_reset_position demo_env (grid holding_game)
                (tet_new demo_env (shape_name (heap holding_game h0)) (grid holding_game)))"
      "\<forall>p. heap (set_piece c2 p g2) h2 = heap g2 h2"
    by blast
  have "\<exists>g' h c. hold_piece demo_env falling_game = Inr g' \<and> held_piece g' = Some h \<and>
       current_piece g' = Some c \<and> h \<noteq> c \<and> h \<noteq> 0 \<and>
       heap g' h = demo_new ''T'' two_full_rows \<and> heap g' c = demo_new ''O'' two_full_rows \<and>
       heap (set_piece c (t_piece 3 9 1) g') h = demo_new ''T'' two_full_rows"
    using 1 by (simp add: fv)
  moreover have "\<exists>g' h c. hold_piece demo_env holding_game = Inr g' \<and> held_piece g' = Some h \<and>
       current_piece g' = Some c \<and> h \<noteq> c \<and> h \<noteq> 0 \<and>
       heap g' h = demo_new ''T'' two_full_rows \<and> heap g' c = demo_new ''I'' two_full_rows \<and>
       heap (set_piece c (t_piece 3 9 1) g') h = demo_new ''T'' two_full_rows"
    using 2 by (simp add: hv)
  ultimately show ?thesis
    using f(2) h(2) by simp
qed

section \<open>The end of the session\<close>

lemma same_session_refl: "same_session g g"
  by (simp add: same_session_def)

lemma same_session_trans: "same_session g g1 \<Longrightarrow> same_session g1 g2 \<Longrightarrow> same_session g g2"
  by (simp add: same_session_def)

lemma same_session_steps:
  "same_session g (set_piece a p g)"
  "same_session g (advance_clock now g)"
  "same_session g (gravity_step E a g)"
  "same_session g (lock_delay_step E dt a g)"
  "same_session g (finish_frame E g)"
  "same_session g (score_and_reset E n t g)"
  "same_session g (level_and_speed E n g)"
  "same_session g (board_clear_bonus E g)"
  "same_session g (snd (draw_next_piece E g))"
  by (simp_all add: same_session_def set_piece_def advance_clock_def gravity_step_def
        lock_delay_step_def finish_frame_def score_and_reset_def level_and_speed_def
        update_drop_speed_def board_clear_bonus_def draw_next_piece_def alloc_def Let_def
        split: option.splits prod.splits)

lemma same_session_ai_step: "ai_step E now a g = Some g1 \<Longrightarrow> same_session g g1"
  by (auto simp: ai_step_def same_session_def set_piece_def split: if_splits option.splits)

lemma same_session_lock_and_list:
  "lock_and_list E wr a g = Inr (t, rows, g1) \<Longrightarrow> same_session g g1"
  by (auto simp: lock_and_list_def same_session_def split: sum.splits)

lemma same_session_clear_listed: "clear_listed E rows g = Inr g1 \<Longrightarrow> same_session g g1"
  by (auto simp: clear_listed_def create_line_clear_particles_def same_session_def
        split: if_splits sum.splits)

lemma spawn_after_lock_session:
  "start_timer (spawn_after_lock E g) = start_timer g"
  "game_over (spawn_after_lock E g) \<Longrightarrow>
     game_over g \<or> closing_screen (current_screen (spawn_after_lock E g))"
  by (auto simp: spawn_after_lock_def draw_next_piece_def alloc_def check_high_score_def
        closing_screen_def Let_def split: prod.splits if_splits)

lemma lock_and_clear_session:
  assumes "lock_and_clear E wr a g = Inr g'"
  shows "start_timer g' = start_timer g"
    and "game_over g' \<Longrightarrow> game_over g \<or> closing_screen (current_screen g')"
proof -
  from assms obtain t rows g1 g2 where
    l: "lock_and_list E wr a g = Inr (t, rows, g1)" and c: "clear_listed E rows g1 = Inr g2"
    and r: "g' = spawn_after_lock E (board_clear_bonus E (level_and_speed E (length rows)
              (score_and_reset E (length rows) t g2)))"
    by (auto simp: lock_and_clear_def split: sum.splits)
  have s: "same_session g (board_clear_bonus E (level_and_speed E (length rows)
              (score_and_reset E (length rows) t g2)))"
    using same_session_lock_and_list [OF l] same_session_clear_listed [OF c]
    by (simp add: same_session_def same_session_steps [unfolded same_session_def])
  show "start_timer g' = start_timer g"
    using s by (simp add: r spawn_after_lock_session same_session_def)
  show "game_over g \<or> closing_screen (current_screen g')" if "game_over g'"
    using s that spawn_after_lock_session(2) [of E] unfolding r same_session_def by metis
qed


lemma piece_frame_session:
  assumes "piece_frame E now dt a g = Some (Inr g')"
  shows "start_timer g' = start_timer g"
    and "game_over g' \<Longrightarrow> game_over g \<or> closing_screen (current_screen g')"
proof -
  from assms obtain g1 where
    a: "ai_step E now a (set_piece a (tet_update_position E (grid g) (heap g a)) g) = Some g1"
    by (auto simp: piece_frame_def split: option.splits)
  define g2 where "g2 = lock_delay_step E dt a (gravity_step E a g1)"
  have s: "same_session g g2"
    using same_session_ai_step [OF a]
    by (simp add: g2_def same_session_def same_session_steps [unfolded same_session_def])
  from assms a have r: "if is_locked (heap g2 a)
      then lock_and_clear E (last_move_was_rotation g1) a g2 = Inr g' else g' = g2"
    by (auto simp: piece_frame_def g2_def Let_def split: if_splits)
  show "start_timer g' = start_timer g"
    using r s lock_and_clear_session(1) [of E "last_move_was_rotation g1" a g2 g']
    by (auto simp: same_session_def split: if_splits)
  show "game_over g \<or> closing_screen (current_screen g')" if "game_over g'"
    using r s that lock_and_clear_session(2) [of E "last_move_was_rotation g1" a g2 g']
    by (auto simp: same_session_def split: if_splits)
qed

lemma update_game_session:
  assumes "update_game E now g = Some (Inr g')" and "\<not> game_over g" and "game_over g'"
  shows "start_timer g' = None \<and> closing_screen (current_screen g')"
proof (cases "start_timer g")
  case (Some t)
  with assms show ?thesis
    by (auto simp: update_game_def Let_def same_session_steps [unfolded same_session_def]
          split: if_splits)
next
  case None
  show ?thesis
  proof (cases "is_paused g")
    case True
    with assms None show ?thesis
      by (auto simp: update_game_def Let_def)
  next
    case False
    define g1 where "g1 = advance_clock now (g\<lparr>ui := particles_update E (ui g)\<rparr>)"
    have g1: "\<not> game_over g1" "start_timer g1 = None"
      using assms(2) None by (simp_all add: g1_def advance_clock_def)
    show ?thesis
    proof (cases "current_piece g")
      case n: None
      with assms None False show ?thesis
        by (auto simp: update_game_def Let_def advance_clock_def
              same_session_steps [unfolded same_session_def])
    next
      case (Some a)
      with assms None False obtain g2 where
        p: "piece_frame E now (now - last_update_time g) a g1 = Some (Inr g2)"
        and f: "g' = finish_frame E g2"
        by (auto simp: update_game_def Let_def g1_def advance_clock_def
              split: option.splits sum.splits)
      from f assms(3) have "game_over g2"
        by (simp add: same_session_steps [unfolded same_session_def])
      with piece_frame_session [OF p] g1 have "start_timer g2 = None"
        and "closing_screen (current_screen g2)"
        by auto
      with f show ?thesis
        by (simp add: same_session_steps [unfolded same_session_def])
    qed
  qed
qed

lemma update_sets_game_over:
  assumes "update E now g = Some (Inr g')" and "\<not> game_over g" and "game_over g'"
  shows "start_timer g' = None \<and> closing_screen (current_screen g')"
proof (cases "current_screen g = ''game''")
  case True
  with assms update_game_session [of E now g g'] show ?thesis
    by (simp add: update_def)
next
  case False
  with assms show ?thesis
    by (auto simp: update_def Let_def same_session_steps [unfolded same_session_def]
          split: if_splits option.splits)
qed

lemma update_closing_screen:
  assumes "closing_screen (current_screen g)"
  shows "update E now g = Some (Inr g)"
proof -
  from assms have "current_screen g \<noteq> ''menu''" "current_screen g \<noteq> ''transition_to_game''"
    "current_screen g \<noteq> ''countdown''" "current_screen g \<noteq> ''game''"
    unfolding closing_screen_def by auto
  then show ?thesis
    by (simp add: update_def)
qed

lemma updates_closing_screen:
  "closing_screen (current_screen g) \<Longrightarrow> updates E ts g = Some (Inr g)"
  by (induction ts) (simp_all add: update_closing_screen)

lemma update_when_over:
  assumes "game_over g" and "start_timer g = None"
    and "current_screen g \<noteq> ''transition_to_game''" and "current_screen g \<noteq> ''countdown''"
  shows "\<exists>u. update E now g = Some (Inr (g\<lparr>ui := u\<rparr>))"
proof -
  consider "current_screen g = ''menu''" | "current_screen g = ''game''"
    | "current_screen g \<noteq> ''menu''" "current_screen g \<noteq> ''game''"
    by blast
  then show ?thesis
  proof cases
    case 1
    then have "update E now g = Some (Inr (g\<lparr>ui := menu_update E (ui g)\<rparr>))"
      by (simp add: update_def)
    then show ?thesis by blast
  next
    case 2
    with assms have "update E now g = Some (Inr (g\<lparr>ui := particles_update E (ui g)\<rparr>))"
      by (simp add: update_def update_game_def Let_def)
    then show ?thesis by blast
  next
    case 3
    with assms have "update E now g = Some (Inr (g\<lparr>ui := ui g\<rparr>))"
      by (simp add: update_def)
    then show ?thesis by blast
  qed
qed

lemma updates_when_over:
  assumes "current_screen g \<noteq> ''transition_to_game''" and "current_screen g \<noteq> ''countdown''"
  shows "game_over g \<Longrightarrow> start_timer g = None \<Longrightarrow> \<exists>u. updates E ts g = Some (Inr (g\<lparr>ui := u\<rparr>))"
  using assms
proof (induction ts arbitrary: g)
  case Nil
  have "updates E [] g = Some (Inr (g\<lparr>ui := ui g\<rparr>))"
    by simp
  then show ?case by blast
next
  case (Cons now ts)
  then obtain u where u: "update E now g = Some (Inr (g\<lparr>ui := u\<rparr>))"
    using update_when_over [of g E now] by blast
  from Cons.IH [of "g\<lparr>ui := u\<rparr>"] Cons.prems
  obtain v where "updates E ts (g\<lparr>ui := u\<rparr>) = Some (Inr (g\<lparr>ui := u, ui := v\<rparr>))"
    by auto
  with u show ?case by auto
qed

lemma last_game_ends:
  "(case update demo_env 16 last_game of
      Some (Inr g1) \<Rightarrow> game_over g1 \<and> current_screen g1 = ''high_scores''
    | other \<Rightarrow> False)"
  by code_simp

text \<open>
  Claim C8.  Once the session is over, calls of \<open>update\<close> leave the board, the score and
  the active piece alone.  First part: from a state with \<open>game_over\<close>, no pending start
  timer and a screen other than the two that lead into a new game (which \<open>game.py\<close> only
  enters with \<open>game_over\<close> reset), every run of calls of \<open>update\<close> returns a state with the
  same grid, score, current piece and piece store, still over.  Second part: when a call
  of \<open>update\<close> itself ends the session, it leaves a state without start timer on the
  name-entry or high-score screen, and every later run of calls of \<open>update\<close> returns
  exactly that state.
\<close>

theorem update_frozen_after_game_over:
  "(game_over g \<and> start_timer g = None \<and> current_screen g \<noteq> ''transition_to_game''
      \<and> current_screen g \<noteq> ''countdown''
    \<longrightarrow> (\<exists>g'. updates E ts g = Some (Inr g') \<and> grid g' = grid g \<and> score g' = score g \<and>
           current_piece g' = current_piece g \<and> heap g' = heap g \<and> game_over g')) \<and>
   (\<not> game_over g \<and> update E now g = Some (Inr g1) \<and> game_over g1
    \<longrightarrow> start_timer g1 = None \<and> closing_screen (current_screen g1) \<and>
        updates E ts g1 = Some (Inr g1))"
proof (intro conjI impI)
  assume "game_over g \<and> start_timer g = None \<and> current_screen g \<noteq> ''transition_to_game''
      \<and> current_screen g \<noteq> ''countdown''"
  then obtain u where "updates E ts g = Some (Inr (g\<lparr>ui := u\<rparr>))" and "game_over g"
    using updates_when_over [of g E ts] by blast
  then show "\<exists>g'. updates E ts g = Some (Inr g') \<and> grid g' = grid g \<and> score g' = score g \<and>
           current_piece g' = current_piece g \<and> heap g' = heap g \<and> game_over g'"
    by simp
next
  assume a: "\<not> game_over g \<and> update E now g = Some (Inr g1) \<and> game_over g1"
  then have s: "start_timer g1 = None \<and> closing_screen (current_screen g1)"
    using update_sets_game_over [of E now g g1] by blast
  then show "start_timer g1 = None" "closing_screen (current_screen g1)"
    by simp_all
  from s show "updates E ts g1 = Some (Inr g1)"
    by (simp add: updates_closing_screen)
qed

text \<open>Three more frames on a finished game change nothing; and the frame that locks the
  last piece beside the stack ends the session, after which two more frames return the
  same state.\<close>

theorem update_frozen_after_game_over_witness:
  "(\<exists>g'. updates demo_env [16, 32, 48] over_game = Some (Inr g') \<and>
         grid g' = topped_out \<and> score g' = (0, 1, 0) \<and> current_piece g' = Some 0 \<and>
         heap g' 0 = demo_new ''O'' topped_out \<and> game_over g') \<and>
   (\<exists>g1. update demo_env 16 last_game = Some (Inr g1) \<and> game_over g1 \<and>
         updates demo_env [32, 48] g1 = Some (Inr g1))"
proof -
  have o: "game_over over_game" "start_timer over_game = None"
    "current_screen over_game \<noteq> ''transition_to_game''"
    "current_screen over_game \<noteq> ''countdown''"
    by (simp_all add: over_game_def topped_out_game_def demo_game_def)
  have ov: "grid over_game = topped_out" "score over_game = (0, 1, 0)"
    "current_piece over_game = Some 0" "heap over_game 0 = demo_new ''O'' topped_out"
    by (simp_all add: over_game_def topped_out_game_def demo_game_def)
  have l: "\<not> game_over last_game"
    by (simp add: last_game_def topped_out_game_def demo_game_def)
  from last_game_ends obtain g1 where
    g1: "update demo_env 16 last_game = Some (Inr g1)" "game_over g1"
    by (auto split: option.splits sum.splits)
  from update_frozen_after_game_over
    [where g = over_game and E = demo_env and ts = "[16, 32, 48]"] o
  have "\<exists>g'. updates demo_env [16, 32, 48] over_game = Some (Inr g') \<and>
         grid g' = topped_out \<and> score g' = (0, 1, 0) \<and> current_piece g' = Some 0 \<and>
         heap g' 0 = demo_new ''O'' topped_out \<and> game_over g'"
    by (auto simp: ov)
  moreover from update_frozen_after_game_over
    [where g = last_game and E = demo_env and now = 16 and ?g1.0 = g1 and ts = "[32, 48]"] l g1
  have "updates demo_env [32, 48] g1 = Some (Inr g1)"
    by simp
  ultimately show ?thesis
    using g1 by blast
qed

section \<open>Spawning into a collision\<close>

text \<open>The spawn after a lock ends the session when the new piece collides; \<open>hold_piece\<close>
  never ends it.\<close>

lemma hold_piece_keeps_game_over:
  assumes "hold_piece E g = Inr g'"
  shows "game_over g' = game_over g \<and> current_screen g' = current_screen g"
proof -
  from assms obtain a where a: "current_piece g = Some a"
    by (auto simp: hold_piece_def split: option.splits)
  show ?thesis
  proof (cases "held_piece g")
    case None
    from hold_piece_first [OF a None, of E] assms show ?thesis
      by auto
  next
    case (Some h0)
    from hold_piece_swap [OF a Some, of E] assms show ?thesis
      by auto
  qed
qed

lemma spawn_after_lock_collision:
  assumes "grid_is_collision E (grid g) (fst (gen_get_next_piece E (piece_generator g) (grid g)))"
  shows "game_over (spawn_after_lock E g) \<and> closing_screen (current_screen (spawn_after_lock E g))"
  using assms
  by (auto simp: spawn_after_lock_def draw_next_piece_def alloc_def check_high_score_def
        closing_screen_def Let_def split: prod.splits)

text \<open>
  Claim C3, evaluated where the code departs from it.  On the stacked board the O piece
  stands free at its spawn position.  Holding it with an empty slot draws the I piece,
  which collides with the stack at its spawn position, and yet the game is not over and
  stays on the game screen.
\<close>

theorem hold_spawn_collision_not_game_over:
  "\<not> grid_is_collision demo_env (grid topped_out_game) (heap topped_out_game 0) \<and>
   (\<exists>g' c. hold_piece demo_env topped_out_game = Inr g' \<and> current_piece g' = Some c \<and>
       heap g' c = demo_new ''I'' topped_out \<and>
       grid_is_collision demo_env (grid g') (heap g' c) \<and>
       \<not> game_over g' \<and> current_screen g' = ''game'')"
proof -
  have t: "current_piece topped_out_game = Some 0" "held_piece topped_out_game = None"
    "grid topped_out_game = topped_out" "\<not> game_over topped_out_game"
    "current_screen topped_out_game = ''game''"
    "fst (gen_get_next_piece demo_env (piece_generator topped_out_game) topped_out)
       = demo_new ''I'' topped_out"
    by (simp_all add: topped_out_game_def demo_game_def demo_env_def demo_get_next_piece_def)
  have c: "\<not> grid_is_collision demo_env (grid topped_out_game) (heap topped_out_game 0)"
    "grid_is_collision demo_env topped_out (demo_new ''I'' topped_out)"
    by code_simp+
  from hold_piece_first [OF t(1,2), of demo_env] obtain g' where
    "hold_piece demo_env topped_out_game = Inr g'"
    "current_piece g' = Some (Suc (next_ref topped_out_game))"
    "heap g' = (heap topped_out_game)
       (next_ref topped_out_game :=
          tet_new demo_env (shape_name (heap topped_out_game 0)) (grid topped_out_game),
        Suc (next_ref topped_out_game) :=
          fst (gen_get_next_piece demo_env (piece_generator topped_out_game)
                 (grid topped_out_game)))"
    "grid g' = grid topped_out_game" "game_over g' = game_over topped_out_game"
    "current_screen g' = current_screen topped_out_game"
    by blast
  with t c show ?thesis
    by simp
qed

section \<open>The autoplay loops end\<close>

text \<open>With moves that shift the piece by the step asked for, the two horizontal loops of
  the autoplay block end, and so does the block.\<close>

lemma ai_move_right_returns:
  assumes "honest_moves E G"
  shows "\<exists>q. ai_move_right E G target p = Some q"
proof (induction "nat (target - piece_x p)" arbitrary: p)
  case 0
  then show ?case
    by (subst ai_move_right.simps) simp
next
  case (Suc n)
  show ?case
  proof (cases "fst (tet_move E G p 1 0)")
    case True
    with assms have "piece_x (snd (tet_move E G p 1 0)) = piece_x p + 1"
      by (simp add: honest_moves_def)
    with Suc have "n = nat (target - piece_x (snd (tet_move E G p 1 0)))"
      by simp
    from Suc.hyps(1) [OF this] True show ?thesis
      by (subst ai_move_right.simps) simp
  next
    case False
    then show ?thesis
      by (subst ai_move_right.simps) simp
  qed
qed

lemma ai_move_left_returns:
  assumes "honest_moves E G"
  shows "\<exists>q. ai_move_left E G target p = Some q"
proof (induction "nat (piece_x p - target)" arbitrary: p)
  case 0
  then show ?case
    by (subst ai_move_left.simps) simp
next
  case (Suc n)
  show ?case
  proof (cases "fst (tet_move E G p (-1) 0)")
    case True
    with assms have "piece_x (snd (tet_move E G p (-1) 0)) = piece_x p + (-1)"
      unfolding honest_moves_def by blast
    with Suc have "n = nat (piece_x (snd (tet_move E G p (-1) 0)) - target)"
      by simp
    from Suc.hyps(1) [OF this] True show ?thesis
      by (subst ai_move_left.simps) simp
  next
    case False
    then show ?thesis
      by (subst ai_move_left.simps) simp
  qed
qed

lemma ai_step_returns:
  assumes "honest_moves E (grid g)"
  shows "\<exists>g1. ai_step E now a g = Some g1"
proof -
  have "\<exists>q. ai_drive_piece E (grid g) best p = Some q" for best p
  proof (cases best)
    case None
    then show ?thesis by (simp add: ai_drive_piece_def)
  next
    case (Some bm)
    obtain p2 where p2: "ai_move_right E (grid g) (bm_x bm)
        (ai_rotate E (grid g) (bm_rotation bm) 4 p) = Some p2"
      using ai_move_right_returns [OF assms] by blast
    obtain p3 where p3: "ai_move_left E (grid g) (bm_x bm) p2 = Some p3"
      using ai_move_left_returns [OF assms] by blast
    show ?thesis
      by (simp add: ai_drive_piece_def Some p2 p3)
  qed
  then obtain q where "ai_drive_piece E (grid g) (ai_get_best_move E g) (heap g a) = Some q"
    by blast
  then show ?thesis
    by (simp add: ai_step_def)
qed

lemma demo_honest_moves: "honest_moves demo_env G"
  by (simp add: honest_moves_def demo_env_def demo_move_def demo_grounded_def)

section \<open>The references stay allocated\<close>

text \<open>The hypothesis of the theorem on the hold slot is an invariant: \<open>update\<close> and
  \<open>hold_piece\<close> leave every reference the game holds below \<open>next_ref\<close>.\<close>

lemma refs_allocated_steps:
  "refs_allocated (set_piece a p g) = refs_allocated g"
  "refs_allocated (advance_clock now g) = refs_allocated g"
  "refs_allocated (gravity_step E a g) = refs_allocated g"
  "refs_allocated (lock_delay_step E dt a g) = refs_allocated g"
  "refs_allocated (finish_frame E g) = refs_allocated g"
  "refs_allocated (score_and_reset E n t g) = refs_allocated g"
  "refs_allocated (level_and_speed E n g) = refs_allocated g"
  "refs_allocated (board_clear_bonus E g) = refs_allocated g"
  "refs_allocated (check_high_score E g) = refs_allocated g"
  by (simp_all add: refs_allocated_def set_piece_def advance_clock_def gravity_step_def
        lock_delay_step_def finish_frame_def score_and_reset_def level_and_speed_def
        update_drop_speed_def board_clear_bonus_def check_high_score_def Let_def
        split: option.splits prod.splits)

lemma refs_allocated_draw_next_piece:
  "refs_allocated g \<Longrightarrow> refs_allocated (snd (draw_next_piece E g))"
  by (auto simp: refs_allocated_def draw_next_piece_def alloc_def
        split: option.splits prod.splits)

lemma refs_allocated_spawn_after_lock:
  "refs_allocated g \<Longrightarrow> refs_allocated (spawn_after_lock E g)"
proof -
  assume a: "refs_allocated g"
  obtain c g1 where d: "draw_next_piece E g = (c, g1)"
    by (cases "draw_next_piece E g")
  with refs_allocated_draw_next_piece [OF a, of E] have "refs_allocated g1"
    by simp
  then have "refs_allocated (g1\<lparr>can_hold := True\<rparr>)"
    and "refs_allocated (g1\<lparr>can_hold := True, game_over := True, current_screen := ''game_over''\<rparr>)"
    by (simp_all add: refs_allocated_def)
  then show ?thesis
    by (simp add: spawn_after_lock_def d Let_def refs_allocated_steps)
qed

lemma refs_allocated_ai_step:
  "ai_step E now a g = Some g1 \<Longrightarrow> refs_allocated g1 = refs_allocated g"
  by (auto simp: ai_step_def refs_allocated_def set_piece_def split: if_splits option.splits)

lemma refs_allocated_lock_and_list:
  "lock_and_list E wr a g = Inr (t, rows, g1) \<Longrightarrow> refs_allocated g1 = refs_allocated g"
  by (auto simp: lock_and_list_def refs_allocated_def split: sum.splits)

lemma refs_allocated_clear_listed:
  "clear_listed E rows g = Inr g1 \<Longrightarrow> refs_allocated g1 = refs_allocated g"
  by (auto simp: clear_listed_def create_line_clear_particles_def refs_allocated_def
        split: if_splits sum.splits)

lemma refs_allocated_lock_and_clear:
  assumes "lock_and_clear E wr a g = Inr g'" and "refs_allocated g"
  shows "refs_allocated g'"
proof -
  from assms(1) obtain t rows g1 g2 where
    l: "lock_and_list E wr a g = Inr (t, rows, g1)" and c: "clear_listed E rows g1 = Inr g2"
    and r: "g' = spawn_after_lock E (board_clear_bonus E (level_and_speed E (length rows)
              (score_and_reset E (length rows) t g2)))"
    by (auto simp: lock_and_clear_def split: sum.splits)
  from assms(2) have "refs_allocated g2"
    by (simp add: refs_allocated_lock_and_list [OF l] refs_allocated_clear_listed [OF c])
  then show ?thesis
    unfolding r by (intro refs_allocated_spawn_after_lock) (simp add: refs_allocated_steps)
qed

lemma refs_allocated_piece_frame:
  assumes "piece_frame E now dt a g = Some (Inr g')" and "refs_allocated g"
  shows "refs_allocated g'"
proof -
  from assms(1) obtain g1 where
    a: "ai_step E now a (set_piece a (tet_update_position E (grid g) (heap g a)) g) = Some g1"
    by (auto simp: piece_frame_def split: option.splits)
  define g2 where "g2 = lock_delay_step E dt a (gravity_step E a g1)"
  have s: "refs_allocated g2"
    using assms(2) by (simp add: g2_def refs_allocated_steps refs_allocated_ai_step [OF a])
  from assms(1) a have "if is_locked (heap g2 a)
      then lock_and_clear E (last_move_was_rotation g1) a g2 = Inr g' else g' = g2"
    by (auto simp: piece_frame_def g2_def Let_def split: if_splits)
  with s show ?thesis
    by (auto intro: refs_allocated_lock_and_clear split: if_splits)
qed

lemma refs_allocated_update_game:
  assumes "update_game E now g = Some (Inr g')" and "refs_allocated g"
  shows "refs_allocated g'"
proof -
  have p: "refs_allocated (g\<lparr>ui := particles_update E (ui g)\<rparr>)"
    using assms(2) by (simp add: refs_allocated_def)
  show ?thesis
  proof (cases "start_timer g")
    case (Some t)
    have "refs_allocated (g\<lparr>ui := particles_update E (ui g), start_timer := None\<rparr>)"
      using assms(2) by (simp add: refs_allocated_def)
    then have "refs_allocated
        ((snd (draw_next_piece E (g\<lparr>ui := particles_update E (ui g), start_timer := None\<rparr>)))
           \<lparr>can_hold := True\<rparr>)"
      using refs_allocated_draw_next_piece
        [of "g\<lparr>ui := particles_update E (ui g), start_timer := None\<rparr>" E]
      by (simp add: refs_allocated_def)
    moreover have "refs_allocated (g\<lparr>ui := particles_update E (ui g), start_timer := Some (t - 1 / 60)\<rparr>)"
      using assms(2) by (simp add: refs_allocated_def)
    ultimately show ?thesis
      using assms(1) Some by (auto simp: update_game_def Let_def split: if_splits)
  next
    case None
    define g1 where "g1 = advance_clock now (g\<lparr>ui := particles_update E (ui g)\<rparr>)"
    have g1: "refs_allocated g1"
      using p by (simp add: g1_def refs_allocated_steps)
    show ?thesis
    proof (cases "game_over g \<or> is_paused g")
      case True
      with assms(1) None p show ?thesis
        by (auto simp: update_game_def Let_def)
    next
      case False
      show ?thesis
      proof (cases "current_piece g")
        case n: None
        with assms(1) None False have "g' = finish_frame E g1"
          by (auto simp: update_game_def Let_def g1_def advance_clock_def)
        with g1 show ?thesis
          by (simp add: refs_allocated_steps)
      next
        case (Some a)
        with assms(1) None False obtain g2 where
          f: "piece_frame E now (now - last_update_time g) a g1 = Some (Inr g2)"
          and r: "g' = finish_frame E g2"
          by (auto simp: update_game_def Let_def g1_def advance_clock_def
                split: option.splits sum.splits)
        from refs_allocated_piece_frame [OF f g1] r show ?thesis
          by (simp add: refs_allocated_steps)
      qed
    qed
  qed
qed

lemma refs_allocated_update:
  assumes "update E now g = Some (Inr g')" and "refs_allocated g"
  shows "refs_allocated g'"
proof (cases "current_screen g = ''game''")
  case True
  with assms refs_allocated_update_game [of E now g g'] show ?thesis
    by (simp add: update_def)
next
  case False
  show ?thesis
  proof (cases "current_screen g = ''countdown''")
    case c: True
    from assms(1) c obtain t where t: "countdown_timer g = Some t"
      by (auto simp: update_def split: option.splits)
    have "refs_allocated (g\<lparr>countdown_timer := Some (t - 1 / 60)\<rparr>)"
      and "refs_allocated (g\<lparr>countdown_timer := Some (t - 1 / 60), current_screen := ''game''\<rparr>)"
      using assms(2) by (simp_all add: refs_allocated_def)
    then have "refs_allocated (g\<lparr>countdown_timer := Some (t - 1 / 60)\<rparr>)"
      and "refs_allocated ((snd (draw_next_piece E
             (g\<lparr>countdown_timer := Some (t - 1 / 60), current_screen := ''game''\<rparr>)))
             \<lparr>can_hold := True\<rparr>)"
      using refs_allocated_draw_next_piece
        [of "g\<lparr>countdown_timer := Some (t - 1 / 60), current_screen := ''game''\<rparr>" E]
      by (simp_all add: refs_allocated_def)
    with assms(1) c t show ?thesis
      by (auto simp: update_def Let_def split: if_splits)
  next
    case nc: False
    from assms False nc show ?thesis
      by (auto simp: update_def Let_def refs_allocated_def split: if_splits)
  qed
qed

lemma refs_allocated_hold_piece:
  assumes "hold_piece E g = Inr g'"
  shows "refs_allocated g'"
proof -
  from assms obtain a where a: "current_piece g = Some a"
    by (auto simp: hold_piece_def split: option.splits)
  show ?thesis
  proof (cases "held_piece g")
    case None
    from hold_piece_first [OF a None, of E] assms show ?thesis
      by (auto simp: refs_allocated_def)
  next
    case (Some h0)
    from hold_piece_swap [OF a Some, of E] assms show ?thesis
      by (auto simp: refs_allocated_def)
  qed
qed

end
